theory Spec2Isabelle
  imports Complex_Main
begin

section \<open>Numbers and strings of the host languages\<close>

text \<open>
  The detection engine lives in one Svelte component: two SQL queries (run by the host's
  DuckDB through \<open>sdk.query\<close>) and the TypeScript of \<open>detectSubscriptions\<close> that turns
  their rows into \<open>Subscription\<close> objects and merges the two lists.

  SQL \<open>DOUBLE\<close>s and JavaScript numbers are modelled as exact reals; a calendar date is
  the number of its day (an \<open>int\<close>), so that \<open>DATEDIFF('day', a, b)\<close> is \<open>b - a\<close>. Strings are
  byte strings and both \<open>UPPER\<close> and \<open>toUpperCase\<close> act on the ASCII letters.
\<close>

definition Math_round :: "real \<Rightarrow> int" where
  \<comment> \<open>JavaScript \<open>Math.round\<close>: the nearest integer, halves towards plus infinity.\<close>
  "Math_round x = \<lfloor>x + 1 / 2\<rfloor>"

definition round_cents :: "real \<Rightarrow> real" where
  \<comment> \<open>\<open>Math.round(x * 100) / 100\<close>\<close>
  "round_cents x = real_of_int (Math_round (x * 100)) / 100"

definition upper_char :: "char \<Rightarrow> char" where
  \<comment> \<open>an ASCII letter \<open>a\<close>..\<open>z\<close> (97..122) loses bit 5; every other byte is kept\<close>
  "upper_char c =
     (case c of Char b0 b1 b2 b3 b4 b5 b6 b7 \<Rightarrow>
        (let n = (of_char c :: nat)
         in if 97 \<le> n \<and> n \<le> 122 then Char b0 b1 b2 b3 b4 False b6 b7 else c))"

definition toUpperCase :: "string \<Rightarrow> string" where
  "toUpperCase s = map upper_char s"

definition lower_char :: "char \<Rightarrow> char" where
  "lower_char c =
     (case c of Char b0 b1 b2 b3 b4 b5 b6 b7 \<Rightarrow>
        (let n = (of_char c :: nat)
         in if 65 \<le> n \<and> n \<le> 90 then Char b0 b1 b2 b3 b4 True b6 b7 else c))"

definition toLowerCase :: "string \<Rightarrow> string" where
  "toLowerCase s = map lower_char s"

section \<open>The classifier of \<open>detectSubscriptions\<close>\<close>

record subscription =
  merchant :: string
  merchant_key :: string
  amount :: real
  frequency :: string
  interval_days :: int
  occurrence_count :: int
  annual_cost :: "real option"
  ytd_cost :: real
  last_charge :: int
  first_charge :: int
  days_since_last :: int
  is_stale :: bool
  is_manual :: bool

definition frequency_of :: "int \<Rightarrow> string" where
  \<comment> \<open>the \<open>if\<close>/\<open>else if\<close> chain on \<open>intervalDays\<close>; the initial value is overwritten on every branch\<close>
  "frequency_of intervalDays =
     (let frequency = ''unknown'' in
      if intervalDays \<le> 8 then ''weekly''
      else if intervalDays \<le> 16 then ''bi-weekly''
      else if intervalDays \<le> 35 then ''monthly''
      else if intervalDays \<le> 100 then ''quarterly''
      else if intervalDays \<le> 200 then ''semi-annual''
      else ''annual'')"

definition staleThreshold :: "int \<Rightarrow> int" where
  "staleThreshold intervalDays = max (intervalDays * 2) 90"

definition annual_cost_of :: "real \<Rightarrow> int \<Rightarrow> real option" where
  \<comment> \<open>\<open>Math.round(avg_amount * (365 / intervalDays) * 100) / 100\<close>. JavaScript does not
      raise on \<open>365 / 0\<close>: the quotient is \<open>Infinity\<close> and so is the cost (\<open>NaN\<close> when the
      amount is 0); \<open>None\<close> stands for that non-finite result.\<close>
  "annual_cost_of avg_amount intervalDays =
     (if intervalDays = 0 then None
      else Some (round_cents (avg_amount * (365 / real_of_int intervalDays))))"


text \<open>
  A row of \<open>SUBSCRIPTION_SQL\<close>'s result, read by index in the TypeScript (\<open>row[0]\<close> ..
  \<open>row[9]\<close>). The two text columns may be \<open>NULL\<close>.
\<close>

record stats_row =
  ms_merchant :: "string option"
  ms_merchant_key :: "string option"
  ms_avg_amount :: real
  ms_occurrence_count :: int
  ms_avg_interval :: real
  ms_stddev_interval :: real
  ms_last_charge :: int
  ms_first_charge :: int
  ms_ytd_cost :: real
  ms_days_since_last :: int

definition or_string :: "string option \<Rightarrow> string \<Rightarrow> string" where
  \<comment> \<open>\<open>(v as string) || d\<close>: \<open>null\<close> and the empty string are falsy\<close>
  "or_string v d = (case v of None \<Rightarrow> d | Some s \<Rightarrow> if s = [] then d else s)"

definition autoDetected_of :: "stats_row \<Rightarrow> subscription" where
  \<comment> \<open>the callback of \<open>rows.map\<close> that builds \<open>autoDetected\<close>\<close>
  "autoDetected_of row =
     (let merchant = or_string (ms_merchant row) [];
          merchant_key = or_string (ms_merchant_key row) (toUpperCase merchant);
          avg_amount = ms_avg_amount row;
          occurrence_count = ms_occurrence_count row;
          avg_interval = ms_avg_interval row;
          last_charge = ms_last_charge row;
          first_charge = ms_first_charge row;
          ytd_cost = ms_ytd_cost row;
          days_since_last = ms_days_since_last row;
          intervalDays = Math_round avg_interval;
          frequency = frequency_of intervalDays;
          is_stale = (days_since_last > staleThreshold intervalDays)
      in \<lparr> merchant = merchant,
           merchant_key = merchant_key,
           amount = round_cents avg_amount,
           frequency = frequency,
           interval_days = intervalDays,
           occurrence_count = occurrence_count,
           annual_cost = annual_cost_of avg_amount intervalDays,
           ytd_cost = round_cents ytd_cost,
           last_charge = last_charge,
           first_charge = first_charge,
           days_since_last = days_since_last,
           is_stale = is_stale,
           is_manual = False \<rparr>)"

text \<open>A row of the tagged query's result (\<open>row[0]\<close> .. \<open>row[8]\<close>; it has no stddev column).\<close>

record tagged_row =
  tg_merchant :: "string option"
  tg_merchant_key :: "string option"
  tg_avg_amount :: real
  tg_occurrence_count :: int
  tg_avg_interval :: real
  tg_last_charge :: int
  tg_first_charge :: int
  tg_ytd_cost :: real
  tg_days_since_last :: int

definition or_30 :: "real \<Rightarrow> real" where
  \<comment> \<open>\<open>(v as number) || 30\<close>: the number 0 is falsy\<close>
  "or_30 v = (if v = 0 then 30 else v)"

definition manualSub_of :: "tagged_row \<Rightarrow> subscription" where
  \<comment> \<open>the callback of \<open>taggedRows.map\<close> that builds \<open>manualSubs\<close>\<close>
  "manualSub_of row =
     (let merchant = or_string (tg_merchant row) [];
          merchant_key = or_string (tg_merchant_key row) (toUpperCase merchant);
          avg_amount = tg_avg_amount row;
          occurrence_count = tg_occurrence_count row;
          avg_interval = or_30 (tg_avg_interval row);
          last_charge = tg_last_charge row;
          first_charge = tg_first_charge row;
          ytd_cost = tg_ytd_cost row;
          days_since_last = tg_days_since_last row;
          intervalDays = Math_round avg_interval;
          frequency = frequency_of intervalDays;
          is_stale = (days_since_last > staleThreshold intervalDays)
      in \<lparr> merchant = merchant,
           merchant_key = merchant_key,
           amount = round_cents avg_amount,
           frequency = frequency,
           interval_days = intervalDays,
           occurrence_count = occurrence_count,
           annual_cost = annual_cost_of avg_amount intervalDays,
           ytd_cost = round_cents ytd_cost,
           last_charge = last_charge,
           first_charge = first_charge,
           days_since_last = days_since_last,
           is_stale = is_stale,
           is_manual = True \<rparr>)"

section \<open>The reconciler of \<open>detectSubscriptions\<close>\<close>

definition digit :: "nat \<Rightarrow> char" where
  "digit n = ''0123456789'' ! (n mod 10)"

fun decimal :: "nat \<Rightarrow> string" where
  "decimal n = (if n < 10 then [digit n] else decimal (n div 10) @ [digit n])"

declare decimal.simps [simp del]

definition toFixed2 :: "real \<Rightarrow> string" where
  \<comment> \<open>\<open>x.toFixed(2)\<close>: the sign, then the integer \<open>n\<close> nearest to \<open>|x| * 100\<close> (the larger one
      of two), written with two fraction digits\<close>
  "toFixed2 x =
     (let n = nat \<lfloor>\<bar>x\<bar> * 100 + 1 / 2\<rfloor>
      in (if x < 0 then ''-'' else []) @ decimal (n div 100) @ ''.''
         @ [digit (n div 10), digit n])"

definition first_word :: "string \<Rightarrow> string" where
  \<comment> \<open>\<open>s.split(' ')[0]\<close>: the text before the first space character\<close>
  "first_word s = takeWhile (\<lambda>c. c \<noteq> CHR '' '') s"

definition amountFirstWord :: "subscription \<Rightarrow> string" where
  "amountFirstWord s = toFixed2 (amount s) @ ''|'' @ first_word (toUpperCase (merchant s))"

definition merge_subscriptions :: "subscription list \<Rightarrow> subscription list \<Rightarrow> subscription list" where
  \<comment> \<open>from the comment \<open>Merge: auto-detected + manual\<close> to the value assigned to \<open>subscriptions\<close>\<close>
  "merge_subscriptions autoDetected manualSubs =
     (let manualKeys = set (map merchant_key manualSubs);
          manualAmountFirstWord = set (map amountFirstWord manualSubs);
          markedAutoDetected =
            map (\<lambda>s. let isAlsoManual =
                           (merchant_key s \<in> manualKeys \<or> amountFirstWord s \<in> manualAmountFirstWord)
                      in s\<lparr>is_manual := isAlsoManual\<rparr>) autoDetected;
          autoKeys = set (map merchant_key autoDetected);
          autoAmountFirstWord = set (map amountFirstWord autoDetected);
          uniqueManual =
            filter (\<lambda>s. if merchant_key s \<in> autoKeys then False
                        else if amountFirstWord s \<in> autoAmountFirstWord then False
                        else True) manualSubs
      in markedAutoDetected @ uniqueManual)"


section \<open>The \<open>transactions\<close> table and the SQL functions used\<close>

record transaction =
  description :: "string option"
  tx_amount :: real
  transaction_date :: int
  tags :: "string list"

text \<open>
  What a query sees: the table in scan order, \<open>CURRENT_DATE\<close>, and the first day of the
  current year (\<open>DATE_TRUNC('year', CURRENT_DATE)\<close>, taken as given).
\<close>

record database =
  transactions :: "transaction list"
  CURRENT_DATE :: int
  year_start :: int

definition UPPER :: "string \<Rightarrow> string" where
  "UPPER s = map upper_char s"

definition ROUND2 :: "real \<Rightarrow> real" where
  \<comment> \<open>\<open>ROUND(x, 2)\<close>: to the nearest cent, halves away from zero\<close>
  "ROUND2 x = sgn x * real_of_int \<lfloor>\<bar>x\<bar> * 100 + 1 / 2\<rfloor> / 100"

definition mean :: "real list \<Rightarrow> real" where
  "mean xs = sum_list xs / real (length xs)"

definition AVG :: "real list \<Rightarrow> real option" where
  \<comment> \<open>\<open>NULL\<close> over no rows\<close>
  "AVG xs = (if xs = [] then None else Some (mean xs))"

definition stddev_samp :: "real list \<Rightarrow> real" where
  "stddev_samp xs = sqrt (sum_list (map (\<lambda>x. (x - mean xs)\<^sup>2) xs) / real (length xs - 1))"

definition STDDEV :: "real list \<Rightarrow> real option" where
  \<comment> \<open>DuckDB's \<open>STDDEV\<close> is the sample standard deviation: \<open>NULL\<close> over fewer than two rows\<close>
  "STDDEV xs = (if length xs < 2 then None else Some (stddev_samp xs))"

definition partition_by :: "('a \<Rightarrow> 'k) \<Rightarrow> 'a list \<Rightarrow> 'a list list" where
  \<comment> \<open>the groups of \<open>GROUP BY\<close> / \<open>PARTITION BY\<close>, one list of rows for every key (SQL leaves
      the order of the groups open; here they follow the last row of each key)\<close>
  "partition_by key rows = map (\<lambda>k. filter (\<lambda>r. key r = k) rows) (remdups (map key rows))"

definition LAG_date :: "('a \<Rightarrow> int) \<Rightarrow> 'a list \<Rightarrow> ('a \<times> int option) list" where
  \<comment> \<open>one window partition \<open>ORDER BY transaction_date\<close> (stable), every row with
      \<open>LAG(transaction_date)\<close>: the date of the row before it, \<open>NULL\<close> for the first\<close>
  "LAG_date date_of p =
     (let s = sort_key date_of p in zip s (None # map (\<lambda>r. Some (date_of r)) s))"

definition interval_rows :: "('a \<Rightarrow> int) \<Rightarrow> ('a \<times> int option) list \<Rightarrow> ('a \<times> int) list" where
  \<comment> \<open>\<open>WHERE prev_date IS NOT NULL\<close>, with \<open>DATEDIFF('day', prev_date, transaction_date)\<close>\<close>
  "interval_rows date_of rows =
     List.map_filter
       (\<lambda>(r, prev_date). case prev_date of None \<Rightarrow> None | Some p \<Rightarrow> Some (r, date_of r - p)) rows"

section \<open>\<open>SUBSCRIPTION_SQL\<close>: the auto-detect query\<close>

record base_row =
  b_norm_amount :: real
  b_upper_desc :: string
  b_description :: string
  b_amount :: real
  b_transaction_date :: int

definition base_row_of :: "transaction \<Rightarrow> base_row option" where
  "base_row_of t =
     (case description t of
        None \<Rightarrow> None
      | Some d \<Rightarrow>
          if tx_amount t < 0 \<and> d \<noteq> []
          then Some \<lparr> b_norm_amount = ROUND2 (tx_amount t),
                      b_upper_desc = UPPER d,
                      b_description = d,
                      b_amount = tx_amount t,
                      b_transaction_date = transaction_date t \<rparr>
          else None)"

definition base_transactions :: "transaction list \<Rightarrow> base_row list" where
  "base_transactions txs = List.map_filter base_row_of txs"

definition canonical_merchants :: "base_row list \<Rightarrow> (real \<times> string) list" where
  \<comment> \<open>\<open>SELECT DISTINCT ON (norm_amount) ... ORDER BY norm_amount, transaction_date ASC\<close>: for
      every amount the first row in date order (rows of one date in scan order)\<close>
  "canonical_merchants base =
     List.map_filter
       (\<lambda>a. case sort_key b_transaction_date (filter (\<lambda>b. b_norm_amount b = a) base) of
               [] \<Rightarrow> None
             | c # _ \<Rightarrow> Some (a, b_upper_desc c))
       (remdups (map b_norm_amount base))"

record grouped_row =
  gt_norm_amount :: real
  gt_description :: string
  gt_amount :: real
  gt_transaction_date :: int
  gt_merchant_group :: string

definition merchant_group_of :: "(string \<Rightarrow> string \<Rightarrow> real) \<Rightarrow> string \<Rightarrow> string option \<Rightarrow> string" where
  \<comment> \<open>the \<open>CASE\<close> of \<open>grouped_transactions\<close>; the similarity of a \<open>NULL\<close> is \<open>NULL\<close>, which
      takes the \<open>ELSE\<close> branch\<close>
  "merchant_group_of jaro_winkler upper_desc canonical_desc =
     (case canonical_desc of
        None \<Rightarrow> upper_desc
      | Some c \<Rightarrow> if jaro_winkler upper_desc c > 7 / 10 then c else upper_desc)"

definition grouped_transactions ::
  "(string \<Rightarrow> string \<Rightarrow> real) \<Rightarrow> base_row list \<Rightarrow> grouped_row list" where
  \<comment> \<open>\<open>base_transactions b LEFT JOIN canonical_merchants c ON b.norm_amount = c.norm_amount\<close>;
      \<open>canonical_merchants\<close> has one row for an amount, so the join is a lookup\<close>
  "grouped_transactions jaro_winkler base =
     map (\<lambda>b. \<lparr> gt_norm_amount = b_norm_amount b,
                 gt_description = b_description b,
                 gt_amount = b_amount b,
                 gt_transaction_date = b_transaction_date b,
                 gt_merchant_group =
                   merchant_group_of jaro_winkler (b_upper_desc b)
                     (map_of (canonical_merchants base) (b_norm_amount b)) \<rparr>) base"

definition group_key :: "grouped_row \<Rightarrow> string \<times> real" where
  "group_key r = (gt_merchant_group r, gt_norm_amount r)"

definition merchant_transactions :: "grouped_row list \<Rightarrow> (grouped_row \<times> int option) list" where
  "merchant_transactions gts =
     concat (map (LAG_date gt_transaction_date) (partition_by group_key gts))"

definition merchant_intervals :: "grouped_row list \<Rightarrow> (grouped_row \<times> int) list" where
  "merchant_intervals gts = interval_rows gt_transaction_date (merchant_transactions gts)"

definition ytd_spending :: "int \<Rightarrow> grouped_row list \<Rightarrow> ((string \<times> real) \<times> real) list" where
  "ytd_spending year gts =
     (let rows = filter (\<lambda>gt. gt_transaction_date gt \<ge> year) gts
      in map (\<lambda>k. (k, sum_list (map (\<lambda>gt. \<bar>gt_amount gt\<bar>) (filter (\<lambda>gt. group_key gt = k) rows))))
           (remdups (map group_key rows)))"

definition HAVING :: "real \<Rightarrow> int list \<Rightarrow> bool" where
  \<comment> \<open>the \<open>HAVING\<close> clause of \<open>merchant_stats\<close> over the \<open>interval_days\<close> of one group; \<open>K\<close>
      is the factor written in the query text (0.5 in the query with fuzzy clustering, 0.3
      in the version that groups by description). A comparison with \<open>NULL\<close> does not hold.\<close>
  "HAVING K intervals =
     (let xs = map real_of_int intervals
      in length xs \<ge> 2
         \<and> (case AVG xs of None \<Rightarrow> False | Some a \<Rightarrow> 5 \<le> a \<and> a \<le> 400)
         \<and> (case STDDEV xs of
              None \<Rightarrow> False
            | Some sd \<Rightarrow> (case AVG xs of None \<Rightarrow> False | Some a \<Rightarrow> sd < a * K)))"

definition merchant_stats_row ::
  "real \<Rightarrow> ((string \<times> real) \<times> real) list \<Rightarrow> int \<Rightarrow> (grouped_row \<times> int) list \<Rightarrow> stats_row option" where
  \<comment> \<open>one group of \<open>merchant_intervals mi LEFT JOIN ytd_spending ys\<close> (\<open>ys\<close> has one row
      for a group)\<close>
  "merchant_stats_row K ys today g =
     (case g of
        [] \<Rightarrow> None
      | (mi, _) # rest \<Rightarrow>
          if HAVING K (map snd g)
          then Some \<lparr> ms_merchant = Some (gt_description mi),
                      ms_merchant_key = Some (gt_merchant_group mi),
                      ms_avg_amount = mean (map (\<lambda>(r, _). \<bar>gt_amount r\<bar>) g),
                      ms_occurrence_count = int (length g) + 1,
                      ms_avg_interval = mean (map (\<lambda>(_, i). real_of_int i) g),
                      ms_stddev_interval = stddev_samp (map (\<lambda>(_, i). real_of_int i) g),
                      ms_last_charge =
                        fold max (map (\<lambda>(r, _). gt_transaction_date r) rest) (gt_transaction_date mi),
                      ms_first_charge =
                        fold min (map (\<lambda>(r, _). gt_transaction_date r) rest) (gt_transaction_date mi),
                      ms_ytd_cost = (case map_of ys (group_key mi) of None \<Rightarrow> 0 | Some ytd_total \<Rightarrow> ytd_total),
                      ms_days_since_last =
                        today - fold max (map (\<lambda>(r, _). gt_transaction_date r) rest) (gt_transaction_date mi) \<rparr>
          else None)"

definition merchant_stats ::
  "real \<Rightarrow> (string \<Rightarrow> string \<Rightarrow> real) \<Rightarrow> database \<Rightarrow> stats_row list" where
  "merchant_stats K jaro_winkler d =
     (let gts = grouped_transactions jaro_winkler (base_transactions (transactions d))
      in List.map_filter (merchant_stats_row K (ytd_spending (year_start d) gts) (CURRENT_DATE d))
           (partition_by (\<lambda>(mi, _). group_key mi) (merchant_intervals gts)))"

definition SUBSCRIPTION_SQL :: "(string \<Rightarrow> string \<Rightarrow> real) \<Rightarrow> database \<Rightarrow> stats_row list" where
  \<comment> \<open>\<open>SELECT * FROM merchant_stats ORDER BY avg_amount * (365.0 / avg_interval) DESC\<close>, with the
      factor 0.5 of the query text\<close>
  "SUBSCRIPTION_SQL jaro_winkler d =
     sort_key (\<lambda>r. - (ms_avg_amount r * (365 / ms_avg_interval r)))
       (merchant_stats (1 / 2) jaro_winkler d)"


section \<open>The tagged query: the manual path\<close>

record tagged_transaction =
  tt_merchant_key :: "string option"
  tt_merchant :: "string option"
  tt_amount :: real
  tt_transaction_date :: int

definition tagged_transactions :: "string \<Rightarrow> transaction list \<Rightarrow> tagged_transaction list" where
  \<comment> \<open>\<open>WHERE amount < 0 AND list_contains(tags, tag)\<close>; the quoted literal with doubled
      quotes denotes the tag itself\<close>
  "tagged_transactions tag txs =
     map (\<lambda>t. \<lparr> tt_merchant_key = map_option UPPER (description t),
                 tt_merchant = description t,
                 tt_amount = \<bar>tx_amount t\<bar>,
                 tt_transaction_date = transaction_date t \<rparr>)
       (filter (\<lambda>t. tx_amount t < 0 \<and> tag \<in> set (tags t)) txs)"

definition with_intervals :: "string \<Rightarrow> transaction list \<Rightarrow> (tagged_transaction \<times> int) list" where
  \<comment> \<open>the window \<open>PARTITION BY UPPER(description) ORDER BY transaction_date\<close> of
      \<open>tagged_transactions\<close>, then \<open>WHERE prev_date IS NOT NULL\<close>\<close>
  "with_intervals tag txs =
     interval_rows tt_transaction_date
       (concat (map (LAG_date tt_transaction_date)
                  (partition_by tt_merchant_key (tagged_transactions tag txs))))"

definition ytd :: "string \<Rightarrow> int \<Rightarrow> transaction list \<Rightarrow> (string option \<times> real) list" where
  "ytd tag year txs =
     (let rows = filter (\<lambda>t. tx_amount t < 0 \<and> tag \<in> set (tags t) \<and> transaction_date t \<ge> year) txs
      in map (\<lambda>k. (k, sum_list (map (\<lambda>t. \<bar>tx_amount t\<bar>)
                                 (filter (\<lambda>t. map_option UPPER (description t) = k) rows))))
           (remdups (map (\<lambda>t. map_option UPPER (description t)) rows)))"

definition grouped_row_of ::
  "(string option \<times> real) list \<Rightarrow> int \<Rightarrow> (tagged_transaction \<times> int) list \<Rightarrow> tagged_row option" where
  \<comment> \<open>one group of \<open>grouped\<close> and its row in the final \<open>SELECT\<close> (\<open>grouped g LEFT JOIN ytd y
      ON g.merchant_key = y.merchant_key\<close>, which a \<open>NULL\<close> key never satisfies)\<close>
  "grouped_row_of ys today g =
     (case g of
        [] \<Rightarrow> None
      | (tt, _) # rest \<Rightarrow>
          Some \<lparr> tg_merchant = tt_merchant tt,
                 tg_merchant_key = tt_merchant_key tt,
                 tg_avg_amount = mean (map (\<lambda>(r, _). tt_amount r) g),
                 tg_occurrence_count = int (length g) + 1,
                 tg_avg_interval =
                   (case AVG (map (\<lambda>(_, i). real_of_int i) g) of None \<Rightarrow> 30 | Some a \<Rightarrow> a),
                 tg_last_charge =
                   fold max (map (\<lambda>(r, _). tt_transaction_date r) rest) (tt_transaction_date tt),
                 tg_first_charge =
                   fold min (map (\<lambda>(r, _). tt_transaction_date r) rest) (tt_transaction_date tt),
                 tg_ytd_cost =
                   (case tt_merchant_key tt of
                      None \<Rightarrow> 0
                    | Some k \<Rightarrow> (case map_of ys (Some k) of None \<Rightarrow> 0 | Some ytd_total \<Rightarrow> ytd_total)),
                 tg_days_since_last =
                   today - fold max (map (\<lambda>(r, _). tt_transaction_date r) rest) (tt_transaction_date tt) \<rparr>)"

definition TAGGED_SQL :: "string \<Rightarrow> database \<Rightarrow> tagged_row list" where
  \<comment> \<open>the query built around the tag, \<open>ORDER BY g.avg_amount DESC\<close>\<close>
  "TAGGED_SQL tag d =
     sort_key (\<lambda>r. - tg_avg_amount r)
       (List.map_filter
          (grouped_row_of (ytd tag (year_start d) (transactions d)) (CURRENT_DATE d))
          (partition_by (\<lambda>(tt, _). tt_merchant_key tt) (with_intervals tag (transactions d))))"

section \<open>The component: state, \<open>detectSubscriptions\<close>, hiding\<close>

text \<open>
  The host: the store the queries read, DuckDB's \<open>jaro_winkler_similarity\<close> (a builtin,
  taken as given), and for each call that can reject the error it rejects with, if any.
\<close>

record sdk =
  store :: database
  jaro_winkler_similarity :: "string \<Rightarrow> string \<Rightarrow> real"
  subscription_query_error :: "string option"
  tagged_query_error :: "string option"
  execute_error :: "string option"

text \<open>
  The \<open>$state\<close> variables the engine reads or writes. \<open>subscriptionTag\<close> is \<open>None\<close> when its
  value is not a string; \<open>toasts\<close> collects the calls of \<open>sdk.toast\<close> (title, message).
\<close>

record view_state =
  subscriptions :: "subscription list"
  hiddenMerchantKeys :: "string set"
  isLoading :: bool
  showHidden :: bool
  searchQuery :: string
  subscriptionTag :: "string option"
  toasts :: "(string \<times> string) list"

definition is_white_space :: "char \<Rightarrow> bool" where
  "is_white_space c = ((of_char c :: nat) \<in> {9, 10, 11, 12, 13, 32})"

definition trim :: "string \<Rightarrow> string" where
  "trim s = rev (dropWhile is_white_space (rev (dropWhile is_white_space s)))"

definition tagToUse :: "view_state \<Rightarrow> string" where
  \<comment> \<open>\<open>typeof subscriptionTag === "string" ? subscriptionTag.trim() : ""\<close>\<close>
  "tagToUse st = (case subscriptionTag st of Some s \<Rightarrow> trim s | None \<Rightarrow> [])"

definition manualSubs :: "sdk \<Rightarrow> view_state \<Rightarrow> string + subscription list" where
  \<comment> \<open>\<open>Inl\<close>: the tagged query rejected\<close>
  "manualSubs k st =
     (if tagToUse st \<noteq> []
      then (case tagged_query_error k of
              Some e \<Rightarrow> Inl e
            | None \<Rightarrow> Inr (map manualSub_of (TAGGED_SQL (tagToUse st) (store k))))
      else Inr [])"

definition autoDetected :: "sdk \<Rightarrow> string + subscription list" where
  "autoDetected k =
     (case subscription_query_error k of
        Some e \<Rightarrow> Inl e
      | None \<Rightarrow> Inr (map autoDetected_of (SUBSCRIPTION_SQL (jaro_winkler_similarity k) (store k))))"

definition detection_run :: "sdk \<Rightarrow> view_state \<Rightarrow> string + subscription list" where
  \<comment> \<open>the body of the \<open>try\<close> block up to the assignment: the list to publish, or the error
      thrown on the way\<close>
  "detection_run k st =
     (case autoDetected k of
        Inl e \<Rightarrow> Inl e
      | Inr auto \<Rightarrow>
          (case manualSubs k st of
             Inl e \<Rightarrow> Inl e
           | Inr manual \<Rightarrow> Inr (merge_subscriptions auto manual)))"

definition detectSubscriptions :: "sdk \<Rightarrow> view_state \<Rightarrow> view_state" where
  \<comment> \<open>the state when the call has settled: \<open>catch\<close> toasts the error, \<open>finally\<close> clears
      \<open>isLoading\<close>\<close>
  "detectSubscriptions k st =
     (case detection_run k st of
        Inl e \<Rightarrow> st\<lparr>toasts := toasts st @ [(''Failed to detect subscriptions'', e)], isLoading := False\<rparr>
      | Inr subs \<Rightarrow> st\<lparr>subscriptions := subs, isLoading := False\<rparr>)"

definition detectSubscriptions_states :: "sdk \<Rightarrow> view_state \<Rightarrow> view_state list" where
  \<comment> \<open>every state the component is in from the call to its end: \<open>isLoading = true\<close> while the
      queries are awaited, then the settled state\<close>
  "detectSubscriptions_states k st = [st\<lparr>isLoading := True\<rparr>, detectSubscriptions k st]"

definition hideSubscription :: "sdk \<Rightarrow> view_state \<Rightarrow> subscription \<Rightarrow> view_state" where
  "hideSubscription k st sub =
     (case execute_error k of
        Some e \<Rightarrow> st\<lparr>toasts := toasts st @ [(''Failed to hide'', e)]\<rparr>
      | None \<Rightarrow>
          st\<lparr>hiddenMerchantKeys := insert (merchant_key sub) (hiddenMerchantKeys st),
             toasts := toasts st
               @ [(''Hidden'', [CHR 0x22] @ merchant sub @ [CHR 0x22] @ '' marked as not a subscription'')]\<rparr>)"

definition unhideSubscription :: "sdk \<Rightarrow> view_state \<Rightarrow> subscription \<Rightarrow> view_state" where
  "unhideSubscription k st sub =
     (case execute_error k of
        Some e \<Rightarrow> st\<lparr>toasts := toasts st @ [(''Failed to restore'', e)]\<rparr>
      | None \<Rightarrow>
          st\<lparr>hiddenMerchantKeys := hiddenMerchantKeys st - {merchant_key sub},
             toasts := toasts st
               @ [(''Restored'', [CHR 0x22] @ merchant sub @ [CHR 0x22] @ '' is visible again'')]\<rparr>)"

fun includes_str :: "string \<Rightarrow> string \<Rightarrow> bool" where
  \<comment> \<open>\<open>s.includes(q)\<close>\<close>
  "includes_str [] q = (q = [])"
| "includes_str (c # s) q = (take (length q) (c # s) = q \<or> includes_str s q)"

definition visibleSubscriptions :: "view_state \<Rightarrow> subscription list" where
  "visibleSubscriptions st =
     filter (\<lambda>s. let isHidden = (merchant_key s \<in> hiddenMerchantKeys st)
                 in if \<not> showHidden st \<and> isHidden then False
                    else if searchQuery st \<noteq> []
                    then includes_str (toLowerCase (merchant s)) (toLowerCase (searchQuery st))
                    else True)
       (subscriptions st)"


section \<open>A sample store\<close>

text \<open>
  Six tagged charges: four of one merchant about a month apart and two of another. The
  similarity used with it scores equal strings 1 and all others 0.
\<close>

definition sample_tx :: "string \<Rightarrow> real \<Rightarrow> int \<Rightarrow> transaction" where
  "sample_tx d a day =
     \<lparr> description = Some d, tx_amount = a, transaction_date = day, tags = [''subscriptions''] \<rparr>"

definition sample_store :: database where
  "sample_store =
     \<lparr> transactions =
         [sample_tx ''Netflix.com'' (- 1599 / 100) 0, sample_tx ''Gym'' (- 40) 10,
          sample_tx ''Netflix.com'' (- 1599 / 100) 30, sample_tx ''Gym'' (- 40) 55,
          sample_tx ''Netflix.com'' (- 1599 / 100) 61, sample_tx ''Netflix.com'' (- 1599 / 100) 89],
       CURRENT_DATE = 100, year_start = 0 \<rparr>"

definition exact_match :: "string \<Rightarrow> string \<Rightarrow> real" where
  "exact_match a b = (if a = b then 1 else 0)"

definition sample_sdk :: sdk where
  "sample_sdk =
     \<lparr> store = sample_store, jaro_winkler_similarity = exact_match,
       subscription_query_error = None, tagged_query_error = None, execute_error = None \<rparr>"

definition sample_state :: view_state where
  "sample_state =
     \<lparr> subscriptions = [], hiddenMerchantKeys = {}, isLoading = True, showHidden = False,
       searchQuery = [], subscriptionTag = Some ''subscriptions'', toasts = [] \<rparr>"

definition netflix_detected :: subscription where
  "netflix_detected =
     \<lparr> merchant = ''Netflix.com'', merchant_key = ''NETFLIX.COM'', amount = 1599 / 100,
       frequency = ''monthly'', interval_days = 30, occurrence_count = 4,
       annual_cost = Some (3891 / 20), ytd_cost = 1599 / 25, last_charge = 89, first_charge = 30,
       days_since_last = 11, is_stale = False, is_manual = False \<rparr>"

definition gym_manual :: subscription where
  "gym_manual =
     \<lparr> merchant = ''Gym'', merchant_key = ''GYM'', amount = 40, frequency = ''quarterly'',
       interval_days = 45, occurrence_count = 2, annual_cost = Some (8111 / 25), ytd_cost = 80,
       last_charge = 55, first_charge = 55, days_since_last = 45, is_stale = False,
       is_manual = True \<rparr>"


text \<open>The same host when the tagged query rejects, and a state with a list already published.\<close>

definition failing_sdk :: sdk where
  "failing_sdk = sample_sdk\<lparr>tagged_query_error := Some ''Catalog Error: no column tags''\<rparr>"

definition published_state :: view_state where
  "published_state = sample_state\<lparr>subscriptions := [gym_manual], isLoading := False\<rparr>"

text \<open>
  A store where the two lists overlap: one merchant charged at an old and at a new
  price (all eight charges tagged), a merchant whose description has a tab after its first
  word (four untagged charges), and two tagged charges of the same amount whose
  description has a space there.
\<close>

definition untagged_tx :: "string \<Rightarrow> real \<Rightarrow> int \<Rightarrow> transaction" where
  "untagged_tx d a day =
     \<lparr> description = Some d, tx_amount = a, transaction_date = day, tags = [] \<rparr>"

definition overlap_store :: database where
  "overlap_store =
     \<lparr> transactions =
         [sample_tx ''Netflix.com'' (- 1599 / 100) 0, sample_tx ''Netflix.com'' (- 1599 / 100) 30,
          sample_tx ''Netflix.com'' (- 1599 / 100) 61, sample_tx ''Netflix.com'' (- 1599 / 100) 89,
          sample_tx ''Netflix.com'' (- 1799 / 100) 120, sample_tx ''Netflix.com'' (- 1799 / 100) 150,
          sample_tx ''Netflix.com'' (- 1799 / 100) 181, sample_tx ''Netflix.com'' (- 1799 / 100) 209,
          untagged_tx (''Acme'' @ [CHR 0x09] @ ''Store'') (- 999 / 100) 123,
          untagged_tx (''Acme'' @ [CHR 0x09] @ ''Store'') (- 999 / 100) 153,
          untagged_tx (''Acme'' @ [CHR 0x09] @ ''Store'') (- 999 / 100) 184,
          untagged_tx (''Acme'' @ [CHR 0x09] @ ''Store'') (- 999 / 100) 212,
          sample_tx ''Acme Corp'' (- 999 / 100) 170, sample_tx ''Acme Corp'' (- 999 / 100) 205],
       CURRENT_DATE = 220, year_start = 0 \<rparr>"

definition overlap_sdk :: sdk where
  "overlap_sdk = sample_sdk\<lparr>store := overlap_store\<rparr>"

definition netflix_new_price :: subscription where
  "netflix_new_price =
     \<lparr> merchant = ''Netflix.com'', merchant_key = ''NETFLIX.COM'', amount = 1799 / 100,
       frequency = ''monthly'', interval_days = 30, occurrence_count = 4,
       annual_cost = Some (5472 / 25), ytd_cost = 1799 / 25, last_charge = 209,
       first_charge = 150, days_since_last = 11, is_stale = False, is_manual = False \<rparr>"

definition netflix_old_price :: subscription where
  "netflix_old_price =
     \<lparr> merchant = ''Netflix.com'', merchant_key = ''NETFLIX.COM'', amount = 1599 / 100,
       frequency = ''monthly'', interval_days = 30, occurrence_count = 4,
       annual_cost = Some (3891 / 20), ytd_cost = 1599 / 25, last_charge = 89,
       first_charge = 30, days_since_last = 131, is_stale = True, is_manual = False \<rparr>"

definition acme_tab_detected :: subscription where
  "acme_tab_detected =
     \<lparr> merchant = ''Acme'' @ [CHR 0x09] @ ''Store'',
       merchant_key = ''ACME'' @ [CHR 0x09] @ ''STORE'', amount = 999 / 100,
       frequency = ''monthly'', interval_days = 30, occurrence_count = 4,
       annual_cost = Some (2431 / 20), ytd_cost = 999 / 25, last_charge = 212,
       first_charge = 153, days_since_last = 8, is_stale = False, is_manual = False \<rparr>"

definition netflix_tagged :: subscription where
  "netflix_tagged =
     \<lparr> merchant = ''Netflix.com'', merchant_key = ''NETFLIX.COM'', amount = 1713 / 100,
       frequency = ''monthly'', interval_days = 30, occurrence_count = 8,
       annual_cost = Some (4169 / 20), ytd_cost = 3398 / 25, last_charge = 209,
       first_charge = 30, days_since_last = 11, is_stale = False, is_manual = True \<rparr>"

definition acme_corp_tagged :: subscription where
  "acme_corp_tagged =
     \<lparr> merchant = ''Acme Corp'', merchant_key = ''ACME CORP'', amount = 999 / 100,
       frequency = ''monthly'', interval_days = 35, occurrence_count = 2,
       annual_cost = Some (5209 / 50), ytd_cost = 999 / 50, last_charge = 205,
       first_charge = 205, days_since_last = 15, is_stale = False, is_manual = True \<rparr>"

text \<open>
  The fallback fingerprint in the specification's words: the amount with two decimals and
  the first whitespace-delimited token of the uppercased merchant name.
\<close>

definition spec_first_token :: "string \<Rightarrow> string" where
  "spec_first_token s = takeWhile (\<lambda>c. \<not> is_white_space c) (dropWhile is_white_space s)"

definition spec_fingerprint :: "subscription \<Rightarrow> string" where
  "spec_fingerprint s = toFixed2 (amount s) @ ''|'' @ spec_first_token (toUpperCase (merchant s))"

text \<open>The specification's own pair: detected as \<open>ACME\<close>, tagged as \<open>ACME CORP\<close>, both 9.99.\<close>

definition acme_detected :: subscription where
  "acme_detected =
     \<lparr> merchant = ''Acme'', merchant_key = ''ACME'', amount = 999 / 100,
       frequency = ''monthly'', interval_days = 30, occurrence_count = 4,
       annual_cost = Some (2431 / 20), ytd_cost = 999 / 25, last_charge = 212,
       first_charge = 153, days_since_last = 8, is_stale = False, is_manual = False \<rparr>"

text \<open>
  Four tagged charges of one merchant, three of them on one day and one on the next.
\<close>

definition same_day_store :: database where
  "same_day_store =
     \<lparr> transactions =
         [sample_tx ''Apple.com/bill'' (- 299 / 100) 200, sample_tx ''Apple.com/bill'' (- 999 / 100) 200,
          sample_tx ''Apple.com/bill'' (- 499 / 100) 200, sample_tx ''Apple.com/bill'' (- 299 / 100) 201],
       CURRENT_DATE = 220, year_start = 0 \<rparr>"

definition same_day_sdk :: sdk where
  "same_day_sdk = sample_sdk\<lparr>store := same_day_store\<rparr>"

definition apple_tagged :: subscription where
  "apple_tagged =
     \<lparr> merchant = ''Apple.com/bill'', merchant_key = ''APPLE.COM/BILL'', amount = 599 / 100,
       frequency = ''weekly'', interval_days = 0, occurrence_count = 4, annual_cost = None,
       ytd_cost = 524 / 25, last_charge = 201, first_charge = 200, days_since_last = 19,
       is_stale = False, is_manual = True \<rparr>"

text \<open>A tag setting of two spaces, and a store whose two charges carry exactly that tag.\<close>

definition blank_tag_state :: view_state where
  "blank_tag_state = sample_state\<lparr>subscriptionTag := Some ''  ''\<rparr>"

definition blank_tag_sdk :: sdk where
  "blank_tag_sdk =
     sample_sdk\<lparr>store :=
       \<lparr> transactions =
           [\<lparr> description = Some ''Gym'', tx_amount = - 40, transaction_date = 10, tags = [''  ''] \<rparr>,
            \<lparr> description = Some ''Gym'', tx_amount = - 40, transaction_date = 55, tags = [''  ''] \<rparr>],
         CURRENT_DATE = 100, year_start = 0 \<rparr>\<rparr>"

text \<open>
  Five charges of one amount under four descriptions, and a similarity that scores two
  strings 1 when their first four characters agree and 0 otherwise.
\<close>

definition same_prefix :: "string \<Rightarrow> string \<Rightarrow> real" where
  "same_prefix a b = (if take 4 a = take 4 b then 1 else 0)"

definition cluster_txs :: "transaction list" where
  "cluster_txs =
     [untagged_tx ''Spotify USA'' (- 1599 / 100) 12,
      untagged_tx ''Netflix.com Los Gatos CA'' (- 1599 / 100) 3,
      untagged_tx ''NETFLIX.COM NETFLIX.COM CA'' (- 1599 / 100) 33,
      untagged_tx ''Spotify US'' (- 1599 / 100) 42,
      untagged_tx ''Netflix.com Los Gatos CA'' (- 1599 / 100) 3]"

section \<open>The sample run, evaluated\<close>

lemma sqrt_7_3: "sqrt (7 / 3) < 2"
proof -
  have "sqrt (7 / 3) < sqrt 4" by (subst real_sqrt_less_iff) simp
  also have "sqrt 4 = (2::real)" by simp
  finally show ?thesis .
qed

lemma HAVING_monthly: "HAVING (1 / 2) [30, 31, 28]"
  using sqrt_7_3
  by (simp add: HAVING_def AVG_def STDDEV_def mean_def stddev_samp_def power2_eq_square)

lemma HAVING_single: "\<not> HAVING K [i]"
  by (simp add: HAVING_def)

lemma sample_grouped:
  "grouped_transactions exact_match (base_transactions (transactions sample_store)) =
  [\<lparr>gt_norm_amount = - (1599 / 100), gt_description = ''Netflix.com'',
     gt_amount = - (1599 / 100), gt_transaction_date = 0,
     gt_merchant_group = ''NETFLIX.COM''\<rparr>,
  \<lparr>gt_norm_amount = - 40, gt_description = ''Gym'', gt_amount = - 40,
     gt_transaction_date = 10, gt_merchant_group = ''GYM''\<rparr>,
  \<lparr>gt_norm_amount = - (1599 / 100), gt_description = ''Netflix.com'',
     gt_amount = - (1599 / 100), gt_transaction_date = 30,
     gt_merchant_group = ''NETFLIX.COM''\<rparr>,
  \<lparr>gt_norm_amount = - 40, gt_description = ''Gym'', gt_amount = - 40,
     gt_transaction_date = 55, gt_merchant_group = ''GYM''\<rparr>,
  \<lparr>gt_norm_amount = - (1599 / 100), gt_description = ''Netflix.com'',
     gt_amount = - (1599 / 100), gt_transaction_date = 61,
     gt_merchant_group = ''NETFLIX.COM''\<rparr>,
  \<lparr>gt_norm_amount = - (1599 / 100), gt_description = ''Netflix.com'',
     gt_amount = - (1599 / 100), gt_transaction_date = 89,
     gt_merchant_group = ''NETFLIX.COM''\<rparr>]"
  by (simp add: sample_store_def sample_tx_def base_transactions_def List.map_filter_def base_row_of_def
      ROUND2_def UPPER_def upper_char_def grouped_transactions_def canonical_merchants_def
      merchant_group_of_def exact_match_def)

lemma sample_intervals:
  "merchant_intervals (grouped_transactions exact_match (base_transactions (transactions sample_store))) =
  [(\<lparr>gt_norm_amount = - 40, gt_description = ''Gym'', gt_amount = - 40,
      gt_transaction_date = 55, gt_merchant_group = ''GYM''\<rparr>,
   45),
  (\<lparr>gt_norm_amount = - (1599 / 100), gt_description = ''Netflix.com'',
      gt_amount = - (1599 / 100), gt_transaction_date = 30,
      gt_merchant_group = ''NETFLIX.COM''\<rparr>,
   30),
  (\<lparr>gt_norm_amount = - (1599 / 100), gt_description = ''Netflix.com'',
      gt_amount = - (1599 / 100), gt_transaction_date = 61,
      gt_merchant_group = ''NETFLIX.COM''\<rparr>,
   31),
  (\<lparr>gt_norm_amount = - (1599 / 100), gt_description = ''Netflix.com'',
      gt_amount = - (1599 / 100), gt_transaction_date = 89,
      gt_merchant_group = ''NETFLIX.COM''\<rparr>,
   28)]"
  unfolding sample_grouped
  by (simp add: merchant_intervals_def merchant_transactions_def partition_by_def group_key_def
      LAG_date_def interval_rows_def List.map_filter_def)

lemma sample_SUBSCRIPTION_SQL:
  "SUBSCRIPTION_SQL exact_match sample_store =
     [\<lparr> ms_merchant = Some ''Netflix.com'', ms_merchant_key = Some ''NETFLIX.COM'',
        ms_avg_amount = 1599 / 100, ms_occurrence_count = 4, ms_avg_interval = 89 / 3,
        ms_stddev_interval = sqrt (7 / 3), ms_last_charge = 89, ms_first_charge = 30,
        ms_ytd_cost = 1599 / 25, ms_days_since_last = 11 \<rparr>]"
  unfolding SUBSCRIPTION_SQL_def merchant_stats_def Let_def sample_intervals
  unfolding sample_grouped
  by (simp add: sample_store_def partition_by_def group_key_def List.map_filter_def merchant_stats_row_def
      HAVING_monthly HAVING_single mean_def stddev_samp_def ytd_spending_def
      power2_eq_square)

lemma sample_TAGGED_SQL:
  "TAGGED_SQL ''subscriptions'' sample_store =
  [\<lparr>tg_merchant = Some ''Gym'', tg_merchant_key = Some ''GYM'',
     tg_avg_amount = 40, tg_occurrence_count = 2, tg_avg_interval = 45,
     tg_last_charge = 55, tg_first_charge = 55, tg_ytd_cost = 80,
     tg_days_since_last = 45\<rparr>,
  \<lparr>tg_merchant = Some ''Netflix.com'',
     tg_merchant_key = Some ''NETFLIX.COM'', tg_avg_amount = 1599 / 100,
     tg_occurrence_count = 4, tg_avg_interval = 89 / 3, tg_last_charge = 89,
     tg_first_charge = 30, tg_ytd_cost = 1599 / 25,
     tg_days_since_last = 11\<rparr>]"
  by (simp add: TAGGED_SQL_def sample_store_def sample_tx_def with_intervals_def
      tagged_transactions_def partition_by_def LAG_date_def interval_rows_def List.map_filter_def
      grouped_row_of_def ytd_def AVG_def mean_def UPPER_def upper_char_def)

lemma sample_autoDetected: "autoDetected sample_sdk = Inr [netflix_detected]"
  by (simp add: autoDetected_def sample_sdk_def sample_SUBSCRIPTION_SQL autoDetected_of_def
      netflix_detected_def or_string_def Math_round_def frequency_of_def staleThreshold_def
      round_cents_def annual_cost_of_def)

lemma sample_tagToUse: "tagToUse sample_state = ''subscriptions''"
  by (simp add: tagToUse_def sample_state_def trim_def is_white_space_def)

lemma sample_manualSubs:
  "manualSubs sample_sdk sample_state = Inr [gym_manual, netflix_detected\<lparr>is_manual := True\<rparr>]"
  by (simp add: manualSubs_def sample_tagToUse sample_sdk_def sample_TAGGED_SQL manualSub_of_def
      netflix_detected_def gym_manual_def or_string_def or_30_def Math_round_def frequency_of_def
      staleThreshold_def round_cents_def annual_cost_of_def)

lemma sample_detection_run:
  "detection_run sample_sdk sample_state = Inr [netflix_detected\<lparr>is_manual := True\<rparr>, gym_manual]"
  by (simp add: detection_run_def sample_autoDetected sample_manualSubs merge_subscriptions_def)
     (simp add: netflix_detected_def gym_manual_def amountFirstWord_def toFixed2_def
      decimal.simps digit_def first_word_def toUpperCase_def upper_char_def Let_def)


section \<open>What a detection run returns\<close>

lemma merge_subscriptions_member:
  assumes "s \<in> set (merge_subscriptions a m)"
  shows "(\<exists>d \<in> set a. \<exists>b. s = d\<lparr>is_manual := b\<rparr>) \<or> s \<in> set m"
  using assms by (auto simp: merge_subscriptions_def Let_def)

lemma detection_run_Inr:
  assumes "detection_run k st = Inr subs"
  shows "\<exists>rows trows. subs = merge_subscriptions (map autoDetected_of rows) (map manualSub_of trows)"
proof -
  from assms obtain a m where a: "autoDetected k = Inr a" and m: "manualSubs k st = Inr m"
    and subs: "subs = merge_subscriptions a m"
    by (auto simp: detection_run_def split: sum.splits)
  from a obtain rows where "a = map autoDetected_of rows"
    by (auto simp: autoDetected_def split: option.splits)
  moreover from m obtain trows where "m = map manualSub_of trows"
    by (auto simp: manualSubs_def split: option.splits if_splits)
  ultimately show ?thesis using subs by blast
qed

lemma detection_run_member:
  assumes "detection_run k st = Inr subs" and "s \<in> set subs"
  shows "(\<exists>row b. s = (autoDetected_of row)\<lparr>is_manual := b\<rparr>) \<or> (\<exists>row. s = manualSub_of row)"
proof -
  from detection_run_Inr [OF assms(1)] obtain rows trows
    where "subs = merge_subscriptions (map autoDetected_of rows) (map manualSub_of trows)" by blast
  with assms(2) merge_subscriptions_member show ?thesis by fastforce
qed

section \<open>Classification\<close>

text \<open>
  C6. The frequency label depends on \<open>Math.round\<close> of the average interval only, with the
  buckets up to 8 weekly, up to 16 bi-weekly, up to 35 monthly, up to 100 quarterly, up to
  200 semi-annual, above 200 annual (in both row mappers; the manual one first replaces an
  average of 0 by 30), and every subscription of a run's list carries the label of its
  \<open>interval_days\<close>. An average of exactly 8, 9, 35, 36, 200, 201 gives weekly, bi-weekly,
  monthly, quarterly, semi-annual, annual.
\<close>

theorem frequency_buckets:
  "(frequency_of d = ''weekly'') = (d \<le> 8)
   \<and> (frequency_of d = ''bi-weekly'') = (8 < d \<and> d \<le> 16)
   \<and> (frequency_of d = ''monthly'') = (16 < d \<and> d \<le> 35)
   \<and> (frequency_of d = ''quarterly'') = (35 < d \<and> d \<le> 100)
   \<and> (frequency_of d = ''semi-annual'') = (100 < d \<and> d \<le> 200)
   \<and> (frequency_of d = ''annual'') = (200 < d)
   \<and> frequency (autoDetected_of row) = frequency_of (Math_round (ms_avg_interval row))
   \<and> frequency (manualSub_of trow) = frequency_of (Math_round (or_30 (tg_avg_interval trow)))
   \<and> interval_days (autoDetected_of row) = Math_round (ms_avg_interval row)
   \<and> interval_days (manualSub_of trow) = Math_round (or_30 (tg_avg_interval trow))
   \<and> (detection_run k st = Inr subs \<longrightarrow> s \<in> set subs \<longrightarrow>
        frequency s = frequency_of (interval_days s))
   \<and> frequency_of (Math_round 8) = ''weekly''
   \<and> frequency_of (Math_round 9) = ''bi-weekly''
   \<and> frequency_of (Math_round 35) = ''monthly''
   \<and> frequency_of (Math_round 36) = ''quarterly''
   \<and> frequency_of (Math_round 200) = ''semi-annual''
   \<and> frequency_of (Math_round 201) = ''annual''"
proof -
  have run: "detection_run k st = Inr subs \<longrightarrow> s \<in> set subs \<longrightarrow>
        frequency s = frequency_of (interval_days s)"
  proof (intro impI)
    assume "detection_run k st = Inr subs" and "s \<in> set subs"
    from detection_run_member [OF this] show "frequency s = frequency_of (interval_days s)"
      by (auto simp: autoDetected_of_def manualSub_of_def Let_def)
  qed
  have rows: "frequency (autoDetected_of row) = frequency_of (Math_round (ms_avg_interval row))"
    "frequency (manualSub_of trow) = frequency_of (Math_round (or_30 (tg_avg_interval trow)))"
    "interval_days (autoDetected_of row) = Math_round (ms_avg_interval row)"
    "interval_days (manualSub_of trow) = Math_round (or_30 (tg_avg_interval trow))"
    by (simp_all add: autoDetected_of_def manualSub_of_def Let_def)
  have buckets: "(frequency_of d = ''weekly'') = (d \<le> 8)"
    "(frequency_of d = ''bi-weekly'') = (8 < d \<and> d \<le> 16)"
    "(frequency_of d = ''monthly'') = (16 < d \<and> d \<le> 35)"
    "(frequency_of d = ''quarterly'') = (35 < d \<and> d \<le> 100)"
    "(frequency_of d = ''semi-annual'') = (100 < d \<and> d \<le> 200)"
    "(frequency_of d = ''annual'') = (200 < d)"
    by (simp_all add: frequency_of_def)
  have points: "frequency_of (Math_round 8) = ''weekly''" "frequency_of (Math_round 9) = ''bi-weekly''"
    "frequency_of (Math_round 35) = ''monthly''" "frequency_of (Math_round 36) = ''quarterly''"
    "frequency_of (Math_round 200) = ''semi-annual''" "frequency_of (Math_round 201) = ''annual''"
    by (simp_all add: frequency_of_def Math_round_def)
  from run rows buckets points show ?thesis by (intro conjI)
qed

theorem frequency_buckets_witness:
  "detection_run sample_sdk sample_state = Inr [netflix_detected\<lparr>is_manual := True\<rparr>, gym_manual]
   \<and> gym_manual \<in> set [netflix_detected\<lparr>is_manual := True\<rparr>, gym_manual]
   \<and> interval_days gym_manual = 45
   \<and> frequency gym_manual = frequency_of 45
   \<and> frequency_of 45 = ''quarterly''"
proof -
  have m: "gym_manual \<in> set [netflix_detected\<lparr>is_manual := True\<rparr>, gym_manual]" by simp
  have i: "interval_days gym_manual = 45" by (simp add: gym_manual_def)
  from frequency_buckets [where k = sample_sdk and st = sample_state and s = gym_manual
      and subs = "[netflix_detected\<lparr>is_manual := True\<rparr>, gym_manual]" and d = 45]
    sample_detection_run m
  have "frequency gym_manual = frequency_of (interval_days gym_manual)"
    and "(frequency_of 45 = ''quarterly'') = (35 < (45::int) \<and> (45::int) \<le> 100)"
    by blast+
  with i m sample_detection_run show ?thesis by simp
qed

text \<open>
  C5. Every subscription of a run's list is stale exactly when its \<open>days_since_last\<close>
  exceeds \<open>max (interval_days * 2) 90\<close>. For an interval of 30 the threshold is 90: 61 days
  is not stale, 91 days is.
\<close>

theorem staleness_rule:
  assumes "detection_run k st = Inr subs" and "s \<in> set subs"
  shows "is_stale s = (days_since_last s > max (interval_days s * 2) 90)
         \<and> staleThreshold 30 = 90 \<and> \<not> 61 > staleThreshold 30 \<and> 91 > staleThreshold 30"
  using detection_run_member [OF assms]
  by (auto simp: autoDetected_of_def manualSub_of_def staleThreshold_def Let_def)

theorem staleness_rule_witness:
  "detection_run sample_sdk sample_state = Inr [netflix_detected\<lparr>is_manual := True\<rparr>, gym_manual]
   \<and> gym_manual \<in> set [netflix_detected\<lparr>is_manual := True\<rparr>, gym_manual]
   \<and> is_stale gym_manual = (days_since_last gym_manual > max (interval_days gym_manual * 2) 90)
   \<and> \<not> is_stale gym_manual"
  using staleness_rule [OF sample_detection_run, of gym_manual] sample_detection_run
  by (simp add: gym_manual_def)

lemma frequency_of_label:
  "frequency_of d \<in> {''weekly'', ''bi-weekly'', ''monthly'', ''quarterly'', ''semi-annual'', ''annual''}
   \<and> frequency_of d \<noteq> ''unknown''"
  by (simp add: frequency_of_def)

lemma frequency_autoDetected_of:
  "frequency ((autoDetected_of row)\<lparr>is_manual := b\<rparr>) = frequency_of (Math_round (ms_avg_interval row))"
  by (simp add: autoDetected_of_def Let_def)

lemma frequency_manualSub_of:
  "frequency (manualSub_of row) = frequency_of (Math_round (or_30 (tg_avg_interval row)))"
  by (simp add: manualSub_of_def Let_def)

text \<open>
  C10. Every subscription of a run's list, from either path, carries one of the six labels
  weekly, bi-weekly, monthly, quarterly, semi-annual, annual; the initial value
  \<open>unknown\<close> never reaches the list.
\<close>

theorem frequency_labels:
  assumes "detection_run k st = Inr subs" and "s \<in> set subs"
  shows "frequency s \<in> {''weekly'', ''bi-weekly'', ''monthly'', ''quarterly'', ''semi-annual'', ''annual''}
         \<and> frequency s \<noteq> ''unknown''"
proof -
  from detection_run_member [OF assms] obtain d where "frequency s = frequency_of d"
    using frequency_autoDetected_of frequency_manualSub_of by metis
  then show ?thesis using frequency_of_label [of d] by simp
qed

theorem frequency_labels_witness:
  "detection_run sample_sdk sample_state = Inr [netflix_detected\<lparr>is_manual := True\<rparr>, gym_manual]
   \<and> netflix_detected\<lparr>is_manual := True\<rparr> \<in> set [netflix_detected\<lparr>is_manual := True\<rparr>, gym_manual]
   \<and> frequency (netflix_detected\<lparr>is_manual := True\<rparr>) = ''monthly''
   \<and> frequency (netflix_detected\<lparr>is_manual := True\<rparr>) \<noteq> ''unknown''"
  using frequency_labels [OF sample_detection_run, of "netflix_detected\<lparr>is_manual := True\<rparr>"]
    sample_detection_run
  by (simp add: netflix_detected_def)

section \<open>Failure of a run\<close>

lemma detection_run_fails:
  "(\<exists>e. detection_run k st = Inl e) =
     (subscription_query_error k \<noteq> None \<or> (tagToUse st \<noteq> [] \<and> tagged_query_error k \<noteq> None))"
  by (auto simp: detection_run_def autoDetected_def manualSubs_def split: option.splits sum.splits)

text \<open>
  C8. When a run fails (the auto-detect query or the tagged query rejects; the merge itself
  cannot fail), \<open>subscriptions\<close> is the same list in every state from the call to its end,
  and the error is toasted. In any run, a state holds either the previous list or the
  complete merged list of that run, never anything between.
\<close>

theorem all_or_nothing:
  "(detection_run k st = Inl e \<longrightarrow>
      (\<forall>s \<in> set (detectSubscriptions_states k st). subscriptions s = subscriptions st)
      \<and> toasts (detectSubscriptions k st) = toasts st @ [(''Failed to detect subscriptions'', e)])
   \<and> (\<forall>s \<in> set (detectSubscriptions_states k st).
         subscriptions s = subscriptions st \<or> detection_run k st = Inr (subscriptions s))
   \<and> ((\<exists>e. detection_run k st = Inl e) =
        (subscription_query_error k \<noteq> None \<or> (tagToUse st \<noteq> [] \<and> tagged_query_error k \<noteq> None)))"
  using detection_run_fails [of k st]
  by (auto simp: detectSubscriptions_states_def detectSubscriptions_def split: sum.splits)

lemma failing_run: "detection_run failing_sdk published_state = Inl ''Catalog Error: no column tags''"
proof -
  have "autoDetected failing_sdk = autoDetected sample_sdk"
    by (simp add: autoDetected_def failing_sdk_def split: option.splits)
  moreover have "tagToUse published_state = ''subscriptions''"
    using sample_tagToUse by (simp add: tagToUse_def published_state_def)
  ultimately show ?thesis
    by (simp add: detection_run_def sample_autoDetected manualSubs_def failing_sdk_def)
qed

theorem all_or_nothing_witness:
  "detection_run failing_sdk published_state = Inl ''Catalog Error: no column tags''
   \<and> autoDetected failing_sdk = Inr [netflix_detected]
   \<and> map subscriptions (detectSubscriptions_states failing_sdk published_state)
       = [[gym_manual], [gym_manual]]"
proof -
  have a: "autoDetected failing_sdk = Inr [netflix_detected]"
    using sample_autoDetected by (simp add: autoDetected_def failing_sdk_def split: option.splits)
  have "\<forall>s \<in> set (detectSubscriptions_states failing_sdk published_state).
          subscriptions s = subscriptions published_state"
    using all_or_nothing [of failing_sdk published_state "''Catalog Error: no column tags''"]
      failing_run by blast
  then have "map subscriptions (detectSubscriptions_states failing_sdk published_state)
       = [[gym_manual], [gym_manual]]"
    by (simp add: detectSubscriptions_states_def published_state_def)
  with a failing_run show ?thesis by simp
qed

section \<open>Hidden merchants\<close>

lemma tagToUse_hidden: "tagToUse (st\<lparr>hiddenMerchantKeys := H\<rparr>) = tagToUse st"
  by (simp add: tagToUse_def)

lemma tagToUse_toasts: "tagToUse (st\<lparr>toasts := T\<rparr>) = tagToUse st"
  by (simp add: tagToUse_def)

lemma detection_run_hidden: "detection_run k (st\<lparr>hiddenMerchantKeys := H\<rparr>) = detection_run k st"
  unfolding detection_run_def manualSubs_def tagToUse_hidden by (rule refl)

lemma detection_run_toasts: "detection_run k (st\<lparr>toasts := T\<rparr>) = detection_run k st"
  unfolding detection_run_def manualSubs_def tagToUse_toasts by (rule refl)

lemma detection_run_hideSubscription:
  "detection_run k (hideSubscription k st sub) = detection_run k st"
  by (simp add: hideSubscription_def detection_run_hidden detection_run_toasts split: option.splits)

lemma subscriptions_hideSubscription: "subscriptions (hideSubscription k st sub) = subscriptions st"
  by (simp add: hideSubscription_def split: option.splits)

text \<open>
  C9. The list a run publishes does not depend on the hidden set: runs from states that
  differ only in \<open>hiddenMerchantKeys\<close> publish the same list, and a run right after
  \<open>hideSubscription\<close> publishes the list it would have published without it. Hidden entries
  are left out by \<open>visibleSubscriptions\<close> alone (when \<open>showHidden\<close> is off), and
  \<open>unhideSubscription\<close> brings the visible list back.
\<close>

theorem hidden_set_independence:
  "detection_run k (st\<lparr>hiddenMerchantKeys := H\<rparr>) = detection_run k st
   \<and> subscriptions (detectSubscriptions k (st\<lparr>hiddenMerchantKeys := H\<rparr>))
       = subscriptions (detectSubscriptions k st)
   \<and> subscriptions (detectSubscriptions k (hideSubscription k st sub))
       = subscriptions (detectSubscriptions k st)
   \<and> (execute_error k = None \<longrightarrow>
        hiddenMerchantKeys (detectSubscriptions k (hideSubscription k st sub))
          = insert (merchant_key sub) (hiddenMerchantKeys st))
   \<and> set (visibleSubscriptions st) \<subseteq> set (subscriptions st)
   \<and> (\<not> showHidden st \<longrightarrow>
        (\<forall>s \<in> set (visibleSubscriptions st). merchant_key s \<notin> hiddenMerchantKeys st))
   \<and> (searchQuery st = [] \<longrightarrow>
        visibleSubscriptions st
          = filter (\<lambda>s. showHidden st \<or> merchant_key s \<notin> hiddenMerchantKeys st) (subscriptions st))
   \<and> (execute_error k = None \<longrightarrow> merchant_key sub \<notin> hiddenMerchantKeys st \<longrightarrow>
        visibleSubscriptions (unhideSubscription k (hideSubscription k st sub) sub)
          = visibleSubscriptions st)"
proof -
  have 1: "detection_run k (st\<lparr>hiddenMerchantKeys := H\<rparr>) = detection_run k st"
    by (rule detection_run_hidden)
  have 2: "subscriptions (detectSubscriptions k (st\<lparr>hiddenMerchantKeys := H\<rparr>))
       = subscriptions (detectSubscriptions k st)"
    by (simp add: detectSubscriptions_def detection_run_hidden split: sum.splits)
  have 3: "subscriptions (detectSubscriptions k (hideSubscription k st sub))
       = subscriptions (detectSubscriptions k st)"
    by (simp add: detectSubscriptions_def detection_run_hideSubscription
        subscriptions_hideSubscription split: sum.splits)
  have 4: "execute_error k = None \<longrightarrow>
        hiddenMerchantKeys (detectSubscriptions k (hideSubscription k st sub))
          = insert (merchant_key sub) (hiddenMerchantKeys st)"
    by (simp add: detectSubscriptions_def hideSubscription_def split: sum.splits)
  have 5: "set (visibleSubscriptions st) \<subseteq> set (subscriptions st)"
    by (simp add: visibleSubscriptions_def)
  have 6: "\<not> showHidden st \<longrightarrow>
        (\<forall>s \<in> set (visibleSubscriptions st). merchant_key s \<notin> hiddenMerchantKeys st)"
    by (auto simp: visibleSubscriptions_def Let_def split: if_splits)
  have 7: "searchQuery st = [] \<longrightarrow>
        visibleSubscriptions st
          = filter (\<lambda>s. showHidden st \<or> merchant_key s \<notin> hiddenMerchantKeys st) (subscriptions st)"
    by (auto simp: visibleSubscriptions_def Let_def intro: filter_cong)
  have 8: "execute_error k = None \<longrightarrow> merchant_key sub \<notin> hiddenMerchantKeys st \<longrightarrow>
        visibleSubscriptions (unhideSubscription k (hideSubscription k st sub) sub)
          = visibleSubscriptions st"
    by (simp add: visibleSubscriptions_def unhideSubscription_def hideSubscription_def)
  from 1 2 3 4 5 6 7 8 show ?thesis by blast
qed


theorem hidden_set_independence_witness:
  "execute_error sample_sdk = None
   \<and> \<not> showHidden sample_state
   \<and> merchant_key netflix_detected \<notin> hiddenMerchantKeys sample_state
   \<and> subscriptions (detectSubscriptions sample_sdk (hideSubscription sample_sdk sample_state netflix_detected))
       = [netflix_detected\<lparr>is_manual := True\<rparr>, gym_manual]
   \<and> visibleSubscriptions (detectSubscriptions sample_sdk (hideSubscription sample_sdk sample_state netflix_detected))
       = [gym_manual]
   \<and> visibleSubscriptions (unhideSubscription sample_sdk (hideSubscription sample_sdk sample_state netflix_detected) netflix_detected)
       = visibleSubscriptions sample_state"
proof -
  have run: "detectSubscriptions sample_sdk (hideSubscription sample_sdk sample_state netflix_detected)
      = (hideSubscription sample_sdk sample_state netflix_detected)
          \<lparr>subscriptions := [netflix_detected\<lparr>is_manual := True\<rparr>, gym_manual], isLoading := False\<rparr>"
    by (simp add: detectSubscriptions_def detection_run_hideSubscription sample_detection_run)
  have e: "execute_error sample_sdk = None" and h: "\<not> showHidden sample_state"
    and n: "merchant_key netflix_detected \<notin> hiddenMerchantKeys sample_state"
    by (simp_all add: sample_sdk_def sample_state_def)
  have "subscriptions (detectSubscriptions sample_sdk (hideSubscription sample_sdk sample_state netflix_detected))
       = subscriptions (detectSubscriptions sample_sdk sample_state)"
    using hidden_set_independence [where k = sample_sdk and st = sample_state and sub = netflix_detected] by blast
  then have full: "subscriptions (detectSubscriptions sample_sdk (hideSubscription sample_sdk sample_state netflix_detected))
       = [netflix_detected\<lparr>is_manual := True\<rparr>, gym_manual]"
    by (simp add: detectSubscriptions_def sample_detection_run)
  have vis: "visibleSubscriptions (detectSubscriptions sample_sdk (hideSubscription sample_sdk sample_state netflix_detected))
       = [gym_manual]"
    unfolding run
    by (simp add: visibleSubscriptions_def hideSubscription_def sample_sdk_def sample_state_def
        netflix_detected_def gym_manual_def)
  have restored: "visibleSubscriptions (unhideSubscription sample_sdk (hideSubscription sample_sdk sample_state netflix_detected) netflix_detected)
       = visibleSubscriptions sample_state"
    using hidden_set_independence [where k = sample_sdk and st = sample_state and sub = netflix_detected] e n by blast
  from e h n full vis restored show ?thesis by blast
qed

section \<open>Reconciliation\<close>

lemma overlap_grouped:
  "grouped_transactions exact_match (base_transactions (transactions overlap_store)) =
   [\<lparr>gt_norm_amount = - (1599 / 100), gt_description = ''Netflix.com'',
     gt_amount = - (1599 / 100), gt_transaction_date = 0, gt_merchant_group = ''NETFLIX.COM''\<rparr>,
    \<lparr>gt_norm_amount = - (1599 / 100), gt_description = ''Netflix.com'',
     gt_amount = - (1599 / 100), gt_transaction_date = 30, gt_merchant_group = ''NETFLIX.COM''\<rparr>,
    \<lparr>gt_norm_amount = - (1599 / 100), gt_description = ''Netflix.com'',
     gt_amount = - (1599 / 100), gt_transaction_date = 61, gt_merchant_group = ''NETFLIX.COM''\<rparr>,
    \<lparr>gt_norm_amount = - (1599 / 100), gt_description = ''Netflix.com'',
     gt_amount = - (1599 / 100), gt_transaction_date = 89, gt_merchant_group = ''NETFLIX.COM''\<rparr>,
    \<lparr>gt_norm_amount = - (1799 / 100), gt_description = ''Netflix.com'',
     gt_amount = - (1799 / 100), gt_transaction_date = 120, gt_merchant_group = ''NETFLIX.COM''\<rparr>,
    \<lparr>gt_norm_amount = - (1799 / 100), gt_description = ''Netflix.com'',
     gt_amount = - (1799 / 100), gt_transaction_date = 150, gt_merchant_group = ''NETFLIX.COM''\<rparr>,
    \<lparr>gt_norm_amount = - (1799 / 100), gt_description = ''Netflix.com'',
     gt_amount = - (1799 / 100), gt_transaction_date = 181, gt_merchant_group = ''NETFLIX.COM''\<rparr>,
    \<lparr>gt_norm_amount = - (1799 / 100), gt_description = ''Netflix.com'',
     gt_amount = - (1799 / 100), gt_transaction_date = 209, gt_merchant_group = ''NETFLIX.COM''\<rparr>,
    \<lparr>gt_norm_amount = - (999 / 100), gt_description = ''Acme'' @ [CHR 0x09] @ ''Store'',
     gt_amount = - (999 / 100), gt_transaction_date = 123,
     gt_merchant_group = ''ACME'' @ [CHR 0x09] @ ''STORE''\<rparr>,
    \<lparr>gt_norm_amount = - (999 / 100), gt_description = ''Acme'' @ [CHR 0x09] @ ''Store'',
     gt_amount = - (999 / 100), gt_transaction_date = 153,
     gt_merchant_group = ''ACME'' @ [CHR 0x09] @ ''STORE''\<rparr>,
    \<lparr>gt_norm_amount = - (999 / 100), gt_description = ''Acme'' @ [CHR 0x09] @ ''Store'',
     gt_amount = - (999 / 100), gt_transaction_date = 184,
     gt_merchant_group = ''ACME'' @ [CHR 0x09] @ ''STORE''\<rparr>,
    \<lparr>gt_norm_amount = - (999 / 100), gt_description = ''Acme'' @ [CHR 0x09] @ ''Store'',
     gt_amount = - (999 / 100), gt_transaction_date = 212,
     gt_merchant_group = ''ACME'' @ [CHR 0x09] @ ''STORE''\<rparr>,
    \<lparr>gt_norm_amount = - (999 / 100), gt_description = ''Acme Corp'',
     gt_amount = - (999 / 100), gt_transaction_date = 170, gt_merchant_group = ''ACME CORP''\<rparr>,
    \<lparr>gt_norm_amount = - (999 / 100), gt_description = ''Acme Corp'',
     gt_amount = - (999 / 100), gt_transaction_date = 205, gt_merchant_group = ''ACME CORP''\<rparr>]"
  by (simp add: overlap_store_def sample_tx_def untagged_tx_def base_transactions_def
      List.map_filter_def base_row_of_def ROUND2_def UPPER_def upper_char_def
      grouped_transactions_def canonical_merchants_def merchant_group_of_def exact_match_def)

lemma overlap_SUBSCRIPTION_SQL:
  "SUBSCRIPTION_SQL exact_match overlap_store =
     [\<lparr> ms_merchant = Some ''Netflix.com'', ms_merchant_key = Some ''NETFLIX.COM'',
        ms_avg_amount = 1799 / 100, ms_occurrence_count = 4, ms_avg_interval = 89 / 3,
        ms_stddev_interval = sqrt (7 / 3), ms_last_charge = 209, ms_first_charge = 150,
        ms_ytd_cost = 1799 / 25, ms_days_since_last = 11 \<rparr>,
      \<lparr> ms_merchant = Some ''Netflix.com'', ms_merchant_key = Some ''NETFLIX.COM'',
        ms_avg_amount = 1599 / 100, ms_occurrence_count = 4, ms_avg_interval = 89 / 3,
        ms_stddev_interval = sqrt (7 / 3), ms_last_charge = 89, ms_first_charge = 30,
        ms_ytd_cost = 1599 / 25, ms_days_since_last = 131 \<rparr>,
      \<lparr> ms_merchant = Some (''Acme'' @ [CHR 0x09] @ ''Store''),
        ms_merchant_key = Some (''ACME'' @ [CHR 0x09] @ ''STORE''),
        ms_avg_amount = 999 / 100, ms_occurrence_count = 4, ms_avg_interval = 89 / 3,
        ms_stddev_interval = sqrt (7 / 3), ms_last_charge = 212, ms_first_charge = 153,
        ms_ytd_cost = 999 / 25, ms_days_since_last = 8 \<rparr>]"
  unfolding SUBSCRIPTION_SQL_def merchant_stats_def Let_def overlap_grouped
  by (simp add: overlap_store_def merchant_intervals_def merchant_transactions_def
      LAG_date_def interval_rows_def partition_by_def group_key_def List.map_filter_def
      merchant_stats_row_def HAVING_monthly HAVING_single mean_def stddev_samp_def
      ytd_spending_def power2_eq_square)


lemma overlap_TAGGED_SQL:
  "TAGGED_SQL ''subscriptions'' overlap_store =
     [\<lparr> tg_merchant = Some ''Netflix.com'', tg_merchant_key = Some ''NETFLIX.COM'',
        tg_avg_amount = 11993 / 700, tg_occurrence_count = 8, tg_avg_interval = 209 / 7,
        tg_last_charge = 209, tg_first_charge = 30, tg_ytd_cost = 3398 / 25,
        tg_days_since_last = 11 \<rparr>,
      \<lparr> tg_merchant = Some ''Acme Corp'', tg_merchant_key = Some ''ACME CORP'',
        tg_avg_amount = 999 / 100, tg_occurrence_count = 2, tg_avg_interval = 35,
        tg_last_charge = 205, tg_first_charge = 205, tg_ytd_cost = 999 / 50,
        tg_days_since_last = 15 \<rparr>]"
  by (simp add: TAGGED_SQL_def overlap_store_def sample_tx_def untagged_tx_def with_intervals_def
      tagged_transactions_def partition_by_def LAG_date_def interval_rows_def List.map_filter_def
      grouped_row_of_def ytd_def AVG_def mean_def UPPER_def upper_char_def)

lemma overlap_autoDetected:
  "autoDetected overlap_sdk = Inr [netflix_new_price, netflix_old_price, acme_tab_detected]"
  by (simp add: autoDetected_def overlap_sdk_def sample_sdk_def overlap_SUBSCRIPTION_SQL
      autoDetected_of_def netflix_new_price_def netflix_old_price_def acme_tab_detected_def
      or_string_def Math_round_def frequency_of_def staleThreshold_def round_cents_def
      annual_cost_of_def toUpperCase_def upper_char_def)

lemma overlap_manualSubs:
  "manualSubs overlap_sdk sample_state = Inr [netflix_tagged, acme_corp_tagged]"
  by (simp add: manualSubs_def sample_tagToUse overlap_sdk_def sample_sdk_def overlap_TAGGED_SQL
      manualSub_of_def netflix_tagged_def acme_corp_tagged_def or_string_def or_30_def
      Math_round_def frequency_of_def staleThreshold_def round_cents_def annual_cost_of_def)

lemma overlap_merge:
  "merge_subscriptions [netflix_new_price, netflix_old_price, acme_tab_detected]
       [netflix_tagged, acme_corp_tagged]
     = [netflix_new_price\<lparr>is_manual := True\<rparr>, netflix_old_price\<lparr>is_manual := True\<rparr>,
        acme_tab_detected, acme_corp_tagged]"
  by (simp add: merge_subscriptions_def)
     (simp add: netflix_new_price_def netflix_old_price_def acme_tab_detected_def
      netflix_tagged_def acme_corp_tagged_def amountFirstWord_def toFixed2_def decimal.simps
      digit_def first_word_def toUpperCase_def upper_char_def Let_def)

lemma overlap_detection_run:
  "detection_run overlap_sdk sample_state
     = Inr [netflix_new_price\<lparr>is_manual := True\<rparr>, netflix_old_price\<lparr>is_manual := True\<rparr>,
            acme_tab_detected, acme_corp_tagged]"
  by (simp add: detection_run_def overlap_autoDetected overlap_manualSubs overlap_merge)

text \<open>
  C1, as stated, fails on the run over the overlapping store. The merchant charged at two
  prices is detected once for each price (the query groups by amount too); both entries
  match the tagged one by \<open>merchant_key\<close>, so the matched merchant is in the final list twice.
  And the detected \<open>Acme<TAB>Store\<close> has the same first whitespace-delimited token and
  amount as the tagged \<open>Acme Corp\<close>, yet it is not marked and the tagged one is
  appended: the code cuts the name at the first space character only.
\<close>

theorem reconciler_counterexample:
  "autoDetected overlap_sdk = Inr [netflix_new_price, netflix_old_price, acme_tab_detected]
   \<and> manualSubs overlap_sdk sample_state = Inr [netflix_tagged, acme_corp_tagged]
   \<and> detection_run overlap_sdk sample_state
       = Inr [netflix_new_price\<lparr>is_manual := True\<rparr>, netflix_old_price\<lparr>is_manual := True\<rparr>,
              acme_tab_detected, acme_corp_tagged]
   \<and> map merchant_key
         [netflix_new_price\<lparr>is_manual := True\<rparr>, netflix_old_price\<lparr>is_manual := True\<rparr>,
          acme_tab_detected, acme_corp_tagged]
       = [''NETFLIX.COM'', ''NETFLIX.COM'', ''ACME'' @ [CHR 0x09] @ ''STORE'', ''ACME CORP'']
   \<and> spec_fingerprint acme_tab_detected = ''9.99|ACME''
   \<and> spec_fingerprint acme_corp_tagged = ''9.99|ACME''
   \<and> \<not> is_manual acme_tab_detected"
  using overlap_autoDetected overlap_manualSubs overlap_detection_run
  by (simp add: netflix_new_price_def netflix_old_price_def acme_tab_detected_def
      acme_corp_tagged_def spec_fingerprint_def spec_first_token_def is_white_space_def
      toFixed2_def decimal.simps digit_def toUpperCase_def upper_char_def Let_def)


lemma in_set_map_iff: "(f m \<in> set (map f xs)) = (\<exists>d \<in> set xs. f d = f m)"
proof
  assume "f m \<in> set (map f xs)"
  then obtain d where "d \<in> set xs" and "f m = f d" by auto
  then show "\<exists>d \<in> set xs. f d = f m" by (intro bexI [of _ d]) simp_all
next
  assume "\<exists>d \<in> set xs. f d = f m"
  then obtain d where d: "d \<in> set xs" and "f d = f m" by blast
  then have "f m = f d" by simp
  with d show "f m \<in> set (map f xs)" by simp
qed

lemma merge_subscriptions_eq:
  "merge_subscriptions detected manual =
     map (\<lambda>d. d\<lparr>is_manual :=
               (\<exists>m \<in> set manual. merchant_key d = merchant_key m \<or> amountFirstWord d = amountFirstWord m)\<rparr>)
       detected
     @ filter (\<lambda>m. \<not> (\<exists>d \<in> set detected.
                        merchant_key d = merchant_key m \<or> amountFirstWord d = amountFirstWord m))
         manual"
proof -
  have marked: "\<And>d. (merchant_key d \<in> set (map merchant_key manual)
                 \<or> amountFirstWord d \<in> set (map amountFirstWord manual))
             = (\<exists>m \<in> set manual. merchant_key d = merchant_key m \<or> amountFirstWord d = amountFirstWord m)"
    by auto
  have kept: "\<And>m. (if merchant_key m \<in> set (map merchant_key detected) then False
                else if amountFirstWord m \<in> set (map amountFirstWord detected) then False else True)
             = (\<not> (\<exists>d \<in> set detected. merchant_key d = merchant_key m \<or> amountFirstWord d = amountFirstWord m))"
    unfolding in_set_map_iff by auto
  show ?thesis
    unfolding merge_subscriptions_def Let_def marked kept by (rule refl)
qed

lemma autoDetected_not_manual:
  assumes "autoDetected k = Inr detected" and "d \<in> set detected"
  shows "\<not> is_manual d"
  using assms by (auto simp: autoDetected_def autoDetected_of_def Let_def split: option.splits)

lemma manualSubs_manual:
  assumes "manualSubs k st = Inr manual" and "m \<in> set manual"
  shows "is_manual m"
  using assms
  by (auto simp: manualSubs_def manualSub_of_def Let_def split: option.splits if_splits)

text \<open>
  C1, amended. The final list is the detected list, in order and unchanged but for
  \<open>is_manual\<close>, which is true exactly for the entries that share their \<open>merchant_key\<close> or
  their fingerprint with some manual entry, followed by the manual entries (all
  \<open>is_manual\<close>) that share neither with any detected entry, unchanged. The fingerprint is
  \<open>amount.toFixed(2)\<close>, a bar, and the uppercased merchant name up to its first space. So a
  matched manual entry is never appended, every detected entry is in the list once, and
  one detected entry matched by one manual entry gives a single entry with the detected
  statistics.
\<close>

theorem reconciler_rule:
  assumes "autoDetected k = Inr detected" and "manualSubs k st = Inr manual"
  shows "detection_run k st =
           Inr (map (\<lambda>d. d\<lparr>is_manual :=
                       (\<exists>m \<in> set manual. merchant_key d = merchant_key m
                                          \<or> amountFirstWord d = amountFirstWord m)\<rparr>) detected
                @ filter (\<lambda>m. \<not> (\<exists>d \<in> set detected. merchant_key d = merchant_key m
                                                      \<or> amountFirstWord d = amountFirstWord m)) manual)
         \<and> (\<forall>m \<in> set manual. is_manual m)
         \<and> (\<forall>d \<in> set detected. \<not> is_manual d)
         \<and> (\<forall>s. amountFirstWord s
                 = toFixed2 (amount s) @ ''|'' @ takeWhile (\<lambda>c. c \<noteq> CHR '' '') (toUpperCase (merchant s)))
         \<and> (\<forall>d m. merchant_key d = merchant_key m \<or> amountFirstWord d = amountFirstWord m
                \<longrightarrow> merge_subscriptions [d] [m] = [d\<lparr>is_manual := True\<rparr>])"
proof -
  have "detection_run k st = Inr (merge_subscriptions detected manual)"
    using assms by (simp add: detection_run_def)
  moreover have "\<forall>d m. merchant_key d = merchant_key m \<or> amountFirstWord d = amountFirstWord m
                \<longrightarrow> merge_subscriptions [d] [m] = [d\<lparr>is_manual := True\<rparr>]"
    by (auto simp: merge_subscriptions_eq)
  moreover have "\<forall>s. amountFirstWord s
                 = toFixed2 (amount s) @ ''|'' @ takeWhile (\<lambda>c. c \<noteq> CHR '' '') (toUpperCase (merchant s))"
    by (simp add: amountFirstWord_def first_word_def)
  ultimately show ?thesis
    using manualSubs_manual [OF assms(2)] autoDetected_not_manual [OF assms(1)]
    by (simp add: merge_subscriptions_eq)
qed

theorem reconciler_rule_witness:
  "autoDetected sample_sdk = Inr [netflix_detected]
   \<and> manualSubs sample_sdk sample_state = Inr [gym_manual, netflix_detected\<lparr>is_manual := True\<rparr>]
   \<and> detection_run sample_sdk sample_state = Inr [netflix_detected\<lparr>is_manual := True\<rparr>, gym_manual]
   \<and> amountFirstWord acme_detected = ''9.99|ACME''
   \<and> amountFirstWord acme_corp_tagged = ''9.99|ACME''
   \<and> merchant_key acme_detected \<noteq> merchant_key acme_corp_tagged
   \<and> merge_subscriptions [acme_detected] [acme_corp_tagged] = [acme_detected\<lparr>is_manual := True\<rparr>]"
proof -
  note rule = reconciler_rule [OF sample_autoDetected sample_manualSubs]
  have fp: "amountFirstWord acme_detected = ''9.99|ACME''"
      "amountFirstWord acme_corp_tagged = ''9.99|ACME''"
    by (simp_all add: acme_detected_def acme_corp_tagged_def amountFirstWord_def toFixed2_def
        decimal.simps digit_def first_word_def toUpperCase_def upper_char_def Let_def)
  have keys: "merchant_key acme_detected \<noteq> merchant_key acme_corp_tagged"
    by (simp add: acme_detected_def acme_corp_tagged_def)
  from rule have "merge_subscriptions [acme_detected] [acme_corp_tagged]
      = [acme_detected\<lparr>is_manual := True\<rparr>]"
    using fp by simp
  with fp keys sample_autoDetected sample_manualSubs sample_detection_run show ?thesis by simp
qed

section \<open>Windows, intervals and groups\<close>

lemma interval_rows_Nil [simp]: "interval_rows f [] = []"
  by (simp add: interval_rows_def List.map_filter_def)

lemma interval_rows_None [simp]: "interval_rows f ((r, None) # rows) = interval_rows f rows"
  by (simp add: interval_rows_def List.map_filter_def)

lemma interval_rows_Some [simp]:
  "interval_rows f ((r, Some p) # rows) = (r, f r - p) # interval_rows f rows"
  by (simp add: interval_rows_def List.map_filter_def)

lemma interval_rows_append: "interval_rows f (xs @ ys) = interval_rows f xs @ interval_rows f ys"
  by (simp add: interval_rows_def List.map_filter_def)

lemma interval_rows_concat:
  "interval_rows f (concat ps) = concat (map (interval_rows f) ps)"
  by (induction ps) (simp_all add: interval_rows_append)

lemma interval_rows_zip_Some:
  "interval_rows f (zip xs (map (\<lambda>r. Some (f r)) ys)) = map (\<lambda>(r, prev). (r, f r - f prev)) (zip xs ys)"
proof (induction xs arbitrary: ys)
  case Nil
  show ?case by simp
next
  case (Cons x xs)
  show ?case by (cases ys) (simp_all add: Cons.IH)
qed

text \<open>The rows of one window with their gaps: every row but the first, paired with the row before it.\<close>

lemma interval_rows_LAG_date:
  "interval_rows f (LAG_date f p) =
     map (\<lambda>(r, prev). (r, f r - f prev)) (zip (tl (sort_key f p)) (sort_key f p))"
proof (cases "sort_key f p")
  case Nil
  then show ?thesis by (simp add: LAG_date_def)
next
  case (Cons x xs)
  then show ?thesis
    using interval_rows_zip_Some [of f xs "x # xs"] by (simp add: LAG_date_def)
qed

lemma length_interval_rows_LAG_date: "length (interval_rows f (LAG_date f p)) = length p - 1"
  by (simp add: interval_rows_LAG_date)

lemma fst_interval_rows_LAG_date:
  assumes "x \<in> set (interval_rows f (LAG_date f p))"
  shows "fst x \<in> set p"
proof -
  from assms have "fst x \<in> set (tl (sort_key f p))"
    by (auto simp: interval_rows_LAG_date dest: set_zip_leftD)
  then have "fst x \<in> set (sort_key f p)"
    by (cases "sort_key f p") auto
  then show ?thesis by simp
qed

lemma remdups_replicate_append:
  assumes "k \<notin> set ys"
  shows "remdups (replicate n k @ ys) = (if n = 0 then remdups ys else k # remdups ys)"
  using assms by (induction n) auto

lemma partition_by_block:
  assumes b: "\<forall>x \<in> set b. kk x = k" and r: "\<forall>x \<in> set rest. kk x \<noteq> k"
  shows "partition_by kk (b @ rest) = (if b = [] then [] else [b]) @ partition_by kk rest"
proof -
  have mb: "map kk b = replicate (length b) k"
    using b by (induction b) auto
  have notin: "k \<notin> set (map kk rest)"
    using r by auto
  have fb: "filter (\<lambda>x. kk x = k) b = b" using b by (induction b) auto
  have fr: "filter (\<lambda>x. kk x = k) rest = []" using r by (induction rest) auto
  have other: "k' \<in> set (remdups (map kk rest)) \<Longrightarrow> filter (\<lambda>x. kk x = k') b = []" for k'
    using b r by (auto simp: filter_empty_conv)
  have "map (\<lambda>k'. filter (\<lambda>x. kk x = k') (b @ rest)) (remdups (map kk rest))
      = map (\<lambda>k'. filter (\<lambda>x. kk x = k') rest) (remdups (map kk rest))"
    using other by (intro map_cong) simp_all
  then show ?thesis
    using remdups_replicate_append [OF notin, of "length b"]
    by (simp add: partition_by_def mb fb fr)
qed

lemma partition_by_blocks:
  assumes "distinct (map fst kbs)" and "\<forall>(k, b) \<in> set kbs. \<forall>x \<in> set b. kk x = k"
  shows "partition_by kk (concat (map snd kbs)) = filter (\<lambda>b. b \<noteq> []) (map snd kbs)"
  using assms
proof (induction kbs)
  case Nil
  show ?case by (simp add: partition_by_def)
next
  case (Cons kb kbs)
  obtain k b where kb: "kb = (k, b)" by (cases kb)
  from Cons.prems kb have b: "\<forall>x \<in> set b. kk x = k" by simp
  have r: "\<forall>x \<in> set (concat (map snd kbs)). kk x \<noteq> k"
  proof
    fix x assume "x \<in> set (concat (map snd kbs))"
    then obtain k' b' where in': "(k', b') \<in> set kbs" and "x \<in> set b'" by auto
    with Cons.prems(2) have "kk x = k'" by auto
    moreover from Cons.prems(1) kb in' have "k' \<noteq> k" by force
    ultimately show "kk x \<noteq> k" by simp
  qed
  from Cons.prems have "partition_by kk (concat (map snd kbs)) = filter (\<lambda>b. b \<noteq> []) (map snd kbs)"
    by (intro Cons.IH) simp_all
  with partition_by_block [OF b r] kb show ?case by simp
qed

text \<open>
  Grouping the interval rows by the key of the window gives back, window by window, the
  interval rows of each window that has any.
\<close>

lemma partition_by_interval_rows:
  "partition_by (\<lambda>(r, _). key r)
       (interval_rows f (concat (map (LAG_date f) (partition_by key rows))))
     = filter (\<lambda>g. g \<noteq> [])
         (map (\<lambda>k. interval_rows f (LAG_date f (filter (\<lambda>r. key r = k) rows)))
            (remdups (map key rows)))"
proof -
  let ?gaps = "\<lambda>k. interval_rows f (LAG_date f (filter (\<lambda>r. key r = k) rows))"
  let ?kbs = "map (\<lambda>k. (k, ?gaps k)) (remdups (map key rows))"
  have 1: "interval_rows f (concat (map (LAG_date f) (partition_by key rows)))
      = concat (map snd ?kbs)"
    by (simp add: interval_rows_concat partition_by_def comp_def)
  have 2: "distinct (map fst ?kbs)" by (simp add: comp_def)
  have 3: "\<forall>(k, b) \<in> set ?kbs. \<forall>x \<in> set b. (\<lambda>(r, _). key r) x = k"
  proof -
    have "key (fst x) = k" if "x \<in> set (?gaps k)" for k x
      using fst_interval_rows_LAG_date [OF that] by simp
    then show ?thesis by (auto simp: case_prod_beta)
  qed
  have 4: "map snd ?kbs = map ?gaps (remdups (map key rows))" by (simp add: comp_def)
  from partition_by_blocks [OF 2 3] show ?thesis unfolding 1 4 .
qed

section \<open>The rows of \<open>merchant_stats\<close>\<close>

lemma HAVING_iff:
  "HAVING K intervals =
     (length intervals \<ge> 2
      \<and> 5 \<le> mean (map real_of_int intervals) \<and> mean (map real_of_int intervals) \<le> 400
      \<and> stddev_samp (map real_of_int intervals) < mean (map real_of_int intervals) * K)"
  by (auto simp: HAVING_def AVG_def STDDEV_def Let_def)

lemma merchant_stats_groups:
  "merchant_stats K jw d =
     (let gts = grouped_transactions jw (base_transactions (transactions d))
      in List.map_filter (merchant_stats_row K (ytd_spending (year_start d) gts) (CURRENT_DATE d))
           (filter (\<lambda>g. g \<noteq> [])
              (map (\<lambda>k. interval_rows gt_transaction_date
                          (LAG_date gt_transaction_date (filter (\<lambda>r. group_key r = k) gts)))
                 (remdups (map group_key gts)))))"
  unfolding merchant_stats_def merchant_intervals_def merchant_transactions_def
    partition_by_interval_rows ..

lemma merchant_stats_row_Some:
  assumes "merchant_stats_row K ys today g = Some r"
  shows "HAVING K (map snd g) \<and> ms_avg_interval r = mean (map real_of_int (map snd g))
         \<and> ms_stddev_interval r = stddev_samp (map real_of_int (map snd g))
         \<and> ms_occurrence_count r = int (length g) + 1"
proof -
  have eq: "map real_of_int (map snd g) = map (\<lambda>(_, i). real_of_int i) g"
    by (induction g) auto
  from assms show ?thesis
    unfolding eq by (auto simp: merchant_stats_row_def split: list.splits if_splits)
qed

lemma in_set_map_filter: "(r \<in> set (List.map_filter h xs)) = (\<exists>x \<in> set xs. h x = Some r)"
  by (induction xs) (auto simp: List.map_filter_def)

lemma merchant_stats_member:
  assumes "r \<in> set (merchant_stats K jw d)"
  shows "\<exists>k. let p = filter (\<lambda>r. group_key r = k)
                      (grouped_transactions jw (base_transactions (transactions d)));
                 g = interval_rows gt_transaction_date (LAG_date gt_transaction_date p)
             in p \<noteq> [] \<and> HAVING K (map snd g)
                \<and> ms_occurrence_count r = int (length p)
                \<and> ms_avg_interval r = mean (map real_of_int (map snd g))
                \<and> ms_stddev_interval r = stddev_samp (map real_of_int (map snd g))"
proof -
  let ?gts = "grouped_transactions jw (base_transactions (transactions d))"
  let ?G = "\<lambda>k. interval_rows gt_transaction_date
                  (LAG_date gt_transaction_date (filter (\<lambda>r. group_key r = k) ?gts))"
  let ?row = "merchant_stats_row K (ytd_spending (year_start d) ?gts) (CURRENT_DATE d)"
  from assms have "\<exists>g \<in> set (filter (\<lambda>g. g \<noteq> []) (map ?G (remdups (map group_key ?gts)))). ?row g = Some r"
    by (simp add: merchant_stats_groups Let_def in_set_map_filter)
  then obtain g where "g \<in> set (map ?G (remdups (map group_key ?gts)))" and ne: "g \<noteq> []"
    and row: "?row g = Some r" by auto
  then have "\<exists>k \<in> set (remdups (map group_key ?gts)). g = ?G k" by (simp add: image_iff)
  then obtain k where g: "g = ?G k" by blast
  let ?p = "filter (\<lambda>r. group_key r = k) ?gts"
  from g have len: "length g = length ?p - 1" by (simp add: length_interval_rows_LAG_date)
  with ne have "length ?p \<ge> 2" by (cases g) auto
  with len have "int (length g) + 1 = int (length ?p)" and "?p \<noteq> []" by auto
  with merchant_stats_row_Some [OF row] g show ?thesis
    by (intro exI [of _ k]) (simp add: Let_def)
qed



section \<open>The periodicity filter\<close>

lemma merchant_stats_row_HAVING:
  "(\<exists>r. merchant_stats_row K ys today g = Some r) = HAVING K (map snd g)"
proof (cases g)
  case Nil
  then show ?thesis by (simp add: merchant_stats_row_def HAVING_def)
next
  case (Cons x xs)
  then show ?thesis by (cases x) (simp add: merchant_stats_row_def)
qed

lemma merchant_stats_iff:
  "(r \<in> set (merchant_stats K jw d)) =
     (let gts = grouped_transactions jw (base_transactions (transactions d))
      in \<exists>k \<in> set (map group_key gts).
           merchant_stats_row K (ytd_spending (year_start d) gts) (CURRENT_DATE d)
             (interval_rows gt_transaction_date
                (LAG_date gt_transaction_date (filter (\<lambda>r. group_key r = k) gts))) = Some r)"
proof -
  have "merchant_stats_row K ys today g = Some r \<Longrightarrow> g \<noteq> []" for ys today g
    by (auto simp: merchant_stats_row_def)
  then show ?thesis
    by (auto simp: merchant_stats_groups Let_def in_set_map_filter)
qed

text \<open>
  C2. A merchant group \<open>p\<close> (the charges of one window) passes the \<open>HAVING\<close> clause exactly
  when it has at least 3 charges (2 interval rows), the mean of its intervals is between 5
  and 400, and their sample standard deviation is below the mean times the tolerance
  \<open>K\<close>; two charges never pass. A group has a row in \<open>merchant_stats\<close> exactly when it
  passes. \<open>SUBSCRIPTION_SQL\<close> with fuzzy clustering runs with \<open>K = 0.5\<close>; the version of the
  query that groups by description has the same clause with 0.3.
\<close>

theorem periodicity_filter:
  "HAVING K (map snd (interval_rows f (LAG_date f p)))
     = (let intervals = map real_of_int (map snd (interval_rows f (LAG_date f p)))
        in length p \<ge> 3 \<and> length intervals \<ge> 2
           \<and> 5 \<le> mean intervals \<and> mean intervals \<le> 400
           \<and> stddev_samp intervals < mean intervals * K)
   \<and> \<not> HAVING K (map snd (interval_rows f (LAG_date f [a, b])))
   \<and> (\<exists>r. merchant_stats_row K ys today g = Some r) = HAVING K (map snd g)
   \<and> (r \<in> set (merchant_stats K jw d)) =
       (let gts = grouped_transactions jw (base_transactions (transactions d))
        in \<exists>k \<in> set (map group_key gts).
             merchant_stats_row K (ytd_spending (year_start d) gts) (CURRENT_DATE d)
               (interval_rows gt_transaction_date
                  (LAG_date gt_transaction_date (filter (\<lambda>r. group_key r = k) gts))) = Some r)
   \<and> set (SUBSCRIPTION_SQL jw d) = set (merchant_stats (1 / 2) jw d)"
proof -
  have len: "length (interval_rows f (LAG_date f q)) = length q - 1" for q :: "'a list"
    by (rule length_interval_rows_LAG_date)
  have 1: "HAVING K (map snd (interval_rows f (LAG_date f p)))
     = (let intervals = map real_of_int (map snd (interval_rows f (LAG_date f p)))
        in length p \<ge> 3 \<and> length intervals \<ge> 2
           \<and> 5 \<le> mean intervals \<and> mean intervals \<le> 400
           \<and> stddev_samp intervals < mean intervals * K)"
    unfolding HAVING_iff Let_def using len [of p] by auto
  have 2: "\<not> HAVING K (map snd (interval_rows f (LAG_date f [a, b])))"
    unfolding HAVING_iff using len [of "[a, b]"] by simp
  have 5: "set (SUBSCRIPTION_SQL jw d) = set (merchant_stats (1 / 2) jw d)"
    by (simp add: SUBSCRIPTION_SQL_def)
  from 1 2 merchant_stats_row_HAVING [of K ys today g] merchant_stats_iff [of r K jw d] 5
  show ?thesis by blast
qed

theorem periodicity_filter_witness:
  "map snd (interval_rows id (LAG_date id [0, 30, 61, 89])) = [30, 31, 28]
   \<and> HAVING (1 / 2) (map snd (interval_rows id (LAG_date id [0, 30, 61, 89])))
   \<and> HAVING (3 / 10) (map snd (interval_rows id (LAG_date id [0, 30, 61, 89])))
   \<and> frequency_of (Math_round (mean (map real_of_int [30, 31, 28]))) = ''monthly''
   \<and> \<not> HAVING (1 / 2) (map snd (interval_rows id (LAG_date id [0, 30])))"
proof -
  have gaps: "map snd (interval_rows id (LAG_date id [0, 30, 61, 89])) = [30, 31, 28]"
    by (simp add: LAG_date_def)
  have m: "mean (map real_of_int [30, 31, 28]) = 89 / 3"
    by (simp add: mean_def)
  have s: "stddev_samp (map real_of_int [30, 31, 28]) = sqrt (7 / 3)"
    by (simp add: stddev_samp_def mean_def power2_eq_square)
  have "sqrt (7 / 3) < 89 / 3 * (1 / 2)" and "sqrt (7 / 3) < 89 / 3 * (3 / 10)"
    using sqrt_7_3 by simp_all
  with gaps m s periodicity_filter [of "1 / 2" id "[0, 30, 61, 89]" 0 30]
    periodicity_filter [of "3 / 10" id "[0, 30, 61, 89]"]
  show ?thesis by (simp add: Math_round_def frequency_of_def)
qed

section \<open>Division by the interval\<close>

lemma Math_round_bounds:
  assumes "5 \<le> x" and "x \<le> 400"
  shows "5 \<le> Math_round x \<and> Math_round x \<le> 400"
  using assms unfolding Math_round_def by linarith

lemma SUBSCRIPTION_SQL_interval:
  assumes "row \<in> set (SUBSCRIPTION_SQL jw d)"
  shows "5 \<le> ms_avg_interval row \<and> ms_avg_interval row \<le> 400"
proof -
  from assms have "row \<in> set (merchant_stats (1 / 2) jw d)" by (simp add: SUBSCRIPTION_SQL_def)
  from merchant_stats_member [OF this] show ?thesis
    by (auto simp: Let_def HAVING_iff)
qed

lemma same_day_TAGGED_SQL:
  "TAGGED_SQL ''subscriptions'' same_day_store =
     [\<lparr> tg_merchant = Some ''Apple.com/bill'', tg_merchant_key = Some ''APPLE.COM/BILL'',
        tg_avg_amount = 599 / 100, tg_occurrence_count = 4, tg_avg_interval = 1 / 3,
        tg_last_charge = 201, tg_first_charge = 200, tg_ytd_cost = 524 / 25,
        tg_days_since_last = 19 \<rparr>]"
  by (simp add: TAGGED_SQL_def same_day_store_def sample_tx_def with_intervals_def
      tagged_transactions_def partition_by_def LAG_date_def List.map_filter_def
      grouped_row_of_def ytd_def AVG_def mean_def UPPER_def upper_char_def)

lemma same_day_SUBSCRIPTION_SQL: "SUBSCRIPTION_SQL exact_match same_day_store = []"
  by (simp add: SUBSCRIPTION_SQL_def merchant_stats_def same_day_store_def sample_tx_def
      base_transactions_def List.map_filter_def base_row_of_def ROUND2_def UPPER_def upper_char_def
      grouped_transactions_def canonical_merchants_def merchant_group_of_def exact_match_def
      merchant_intervals_def merchant_transactions_def LAG_date_def partition_by_def group_key_def
      merchant_stats_row_def HAVING_single)

lemma same_day_manualSubs: "manualSubs same_day_sdk sample_state = Inr [apple_tagged]"
  by (simp add: manualSubs_def sample_tagToUse same_day_sdk_def sample_sdk_def same_day_TAGGED_SQL
      manualSub_of_def apple_tagged_def or_string_def or_30_def Math_round_def frequency_of_def
      staleThreshold_def round_cents_def annual_cost_of_def)

lemma same_day_autoDetected: "autoDetected same_day_sdk = Inr []"
  by (simp add: autoDetected_def same_day_sdk_def sample_sdk_def same_day_SUBSCRIPTION_SQL)

lemma same_day_detection_run: "detection_run same_day_sdk sample_state = Inr [apple_tagged]"
  by (simp add: detection_run_def same_day_autoDetected same_day_manualSubs merge_subscriptions_def)

lemma Math_round_zero_iff: "(Math_round x = 0) = (- 1 / 2 \<le> x \<and> x < 1 / 2)"
  unfolding Math_round_def by linarith

lemma manualSub_of_interval_zero:
  "(interval_days (manualSub_of trow) = 0)
     = (tg_avg_interval trow \<noteq> 0 \<and> - 1 / 2 \<le> tg_avg_interval trow \<and> tg_avg_interval trow < 1 / 2)"
  by (simp add: manualSub_of_def Let_def or_30_def Math_round_zero_iff)

lemma manualSub_of_annual_cost:
  "(annual_cost (manualSub_of trow) = None) = (interval_days (manualSub_of trow) = 0)"
  by (simp add: manualSub_of_def Let_def annual_cost_of_def)

lemma autoDetected_of_interval:
  assumes "row \<in> set (SUBSCRIPTION_SQL jw d)"
  shows "5 \<le> interval_days (autoDetected_of row) \<and> interval_days (autoDetected_of row) \<le> 400
         \<and> annual_cost (autoDetected_of row)
             = Some (round_cents (ms_avg_amount row
                       * (365 / real_of_int (interval_days (autoDetected_of row)))))"
proof -
  from SUBSCRIPTION_SQL_interval [OF assms]
  have b: "5 \<le> Math_round (ms_avg_interval row) \<and> Math_round (ms_avg_interval row) \<le> 400"
    by (intro Math_round_bounds) simp_all
  have i: "interval_days (autoDetected_of row) = Math_round (ms_avg_interval row)"
    by (simp add: autoDetected_of_def Let_def)
  from b have "Math_round (ms_avg_interval row) \<noteq> 0" by simp
  then have "annual_cost (autoDetected_of row)
      = Some (round_cents (ms_avg_amount row * (365 / real_of_int (Math_round (ms_avg_interval row)))))"
    by (simp add: autoDetected_of_def Let_def annual_cost_of_def)
  with b i show ?thesis by simp
qed

text \<open>
  C7. No subscription of a run should divide by an interval of 0. The auto-detect path
  meets this: its rows passed the range gate, so \<open>interval_days\<close> is between 5 and 400 and
  the annual cost is the rounded \<open>avg_amount * (365 / interval_days)\<close>. The manual path does
  not: it has no range gate, and its guard replaces an average interval of 0 by 30 before
  \<open>Math.round\<close>, so a non-zero average below one half (from -0.5 on) still rounds to 0 and
  the cost is \<open>avg_amount * (365 / 0)\<close>, which is not a finite number. The four tagged
  charges of the same-day store, with gaps 0, 0 and 1, are such a group.
\<close>

theorem manual_interval_zero:
  "detection_run same_day_sdk sample_state = Inr [apple_tagged]
   \<and> interval_days apple_tagged = 0
   \<and> annual_cost apple_tagged = None
   \<and> annual_cost_of (599 / 100) 0 = None
   \<and> (interval_days (manualSub_of trow) = 0)
       = (tg_avg_interval trow \<noteq> 0 \<and> - 1 / 2 \<le> tg_avg_interval trow \<and> tg_avg_interval trow < 1 / 2)
   \<and> (annual_cost (manualSub_of trow) = None) = (interval_days (manualSub_of trow) = 0)
   \<and> (row \<in> set (SUBSCRIPTION_SQL jw d) \<longrightarrow>
        5 \<le> interval_days (autoDetected_of row) \<and> interval_days (autoDetected_of row) \<le> 400
        \<and> annual_cost (autoDetected_of row)
            = Some (round_cents (ms_avg_amount row
                      * (365 / real_of_int (interval_days (autoDetected_of row))))))"
proof -
  have 1: "interval_days apple_tagged = 0" "annual_cost apple_tagged = None"
    "annual_cost_of (599 / 100) 0 = None"
    by (simp_all add: apple_tagged_def annual_cost_of_def)
  from same_day_detection_run 1 manualSub_of_interval_zero [of trow]
    manualSub_of_annual_cost [of trow] autoDetected_of_interval [of row jw d]
  show ?thesis by blast
qed

theorem manual_interval_zero_witness:
  "hd (SUBSCRIPTION_SQL exact_match sample_store) \<in> set (SUBSCRIPTION_SQL exact_match sample_store)
   \<and> autoDetected_of (hd (SUBSCRIPTION_SQL exact_match sample_store)) = netflix_detected
   \<and> interval_days netflix_detected = 30
   \<and> annual_cost netflix_detected = Some (3891 / 20)
   \<and> tg_avg_interval (hd (TAGGED_SQL ''subscriptions'' same_day_store)) = 1 / 3
   \<and> interval_days (manualSub_of (hd (TAGGED_SQL ''subscriptions'' same_day_store))) = 0
   \<and> annual_cost (manualSub_of (hd (TAGGED_SQL ''subscriptions'' same_day_store))) = None"
proof -
  let ?row = "hd (SUBSCRIPTION_SQL exact_match sample_store)"
  let ?trow = "hd (TAGGED_SQL ''subscriptions'' same_day_store)"
  note t = manual_interval_zero [where row = ?row and jw = exact_match and d = sample_store
      and trow = ?trow]
  have mem: "?row \<in> set (SUBSCRIPTION_SQL exact_match sample_store)"
    by (simp add: sample_SUBSCRIPTION_SQL)
  have auto: "autoDetected_of ?row = netflix_detected"
    using sample_autoDetected
    by (simp add: autoDetected_def sample_sdk_def sample_SUBSCRIPTION_SQL)
  from t mem have "5 \<le> interval_days (autoDetected_of ?row)" by blast
  have avg: "tg_avg_interval ?trow = 1 / 3" by (simp add: same_day_TAGGED_SQL)
  with t have zero: "interval_days (manualSub_of ?trow) = 0" by simp
  with t have none: "annual_cost (manualSub_of ?trow) = None" by blast
  from mem auto avg zero none show ?thesis by (simp add: netflix_detected_def)
qed

section \<open>The manual path\<close>

lemma TAGGED_SQL_groups:
  "TAGGED_SQL tag d =
     (let tts = tagged_transactions tag (transactions d)
      in sort_key (\<lambda>r. - tg_avg_amount r)
           (List.map_filter
              (grouped_row_of (ytd tag (year_start d) (transactions d)) (CURRENT_DATE d))
              (filter (\<lambda>g. g \<noteq> [])
                 (map (\<lambda>k. interval_rows tt_transaction_date
                             (LAG_date tt_transaction_date (filter (\<lambda>r. tt_merchant_key r = k) tts)))
                    (remdups (map tt_merchant_key tts))))))"
  unfolding TAGGED_SQL_def with_intervals_def partition_by_interval_rows Let_def ..

lemma grouped_row_of_Some:
  assumes "g \<noteq> []"
  shows "\<exists>row. grouped_row_of ys today g = Some row
           \<and> tg_merchant_key row = tt_merchant_key (fst (hd g))
           \<and> tg_occurrence_count row = int (length g) + 1
           \<and> tg_avg_interval row = mean (map (\<lambda>x. real_of_int (snd x)) g)"
proof -
  have eq: "map (\<lambda>x. real_of_int (snd x)) g = map (\<lambda>(_, i). real_of_int i) g"
    by (induction g) auto
  from assms show ?thesis
    unfolding eq by (cases g) (auto simp: grouped_row_of_def AVG_def)
qed

lemma grouped_row_of_None: "grouped_row_of ys today [] = None"
  by (simp add: grouped_row_of_def)

lemma TAGGED_SQL_member:
  "(row \<in> set (TAGGED_SQL tag d)) =
     (\<exists>k \<in> set (map tt_merchant_key (tagged_transactions tag (transactions d))).
        grouped_row_of (ytd tag (year_start d) (transactions d)) (CURRENT_DATE d)
          (interval_rows tt_transaction_date
             (LAG_date tt_transaction_date
                (filter (\<lambda>r. tt_merchant_key r = k) (tagged_transactions tag (transactions d)))))
        = Some row)"
proof -
  have "grouped_row_of ys today g = Some row \<Longrightarrow> g \<noteq> []" for ys today g
    by (auto simp: grouped_row_of_def)
  then show ?thesis
    by (auto simp: TAGGED_SQL_groups Let_def in_set_map_filter)
qed

lemma window_key:
  assumes "g = interval_rows f (LAG_date f (filter (\<lambda>r. key r = k) rows))" and "g \<noteq> []"
  shows "key (fst (hd g)) = k"
proof -
  from assms(2) have "hd g \<in> set g" by simp
  with assms(1) fst_interval_rows_LAG_date [of "hd g" f "filter (\<lambda>r. key r = k) rows"]
  show ?thesis by simp
qed

lemma length_tagged_transactions:
  "length (filter (\<lambda>r. tt_merchant_key r = key) (tagged_transactions tag txs))
     = length (filter (\<lambda>t. tx_amount t < 0 \<and> tag \<in> set (tags t)
                            \<and> map_option UPPER (description t) = key) txs)"
  by (induction txs) (auto simp: tagged_transactions_def)

lemma TAGGED_SQL_row:
  assumes "row \<in> set (TAGGED_SQL tag d)"
  shows "let p = filter (\<lambda>r. tt_merchant_key r = tg_merchant_key row)
                   (tagged_transactions tag (transactions d));
             gaps = map (\<lambda>x. real_of_int (snd x))
                      (interval_rows tt_transaction_date (LAG_date tt_transaction_date p))
         in length p \<ge> 2 \<and> tg_occurrence_count row = int (length p) \<and> gaps \<noteq> []
            \<and> tg_avg_interval row = mean gaps"
proof -
  let ?tts = "tagged_transactions tag (transactions d)"
  let ?G = "\<lambda>k. interval_rows tt_transaction_date
                  (LAG_date tt_transaction_date (filter (\<lambda>r. tt_merchant_key r = k) ?tts))"
  from assms obtain k
    where row: "grouped_row_of (ytd tag (year_start d) (transactions d)) (CURRENT_DATE d) (?G k) = Some row"
    unfolding TAGGED_SQL_member by blast
  then have ne: "?G k \<noteq> []" by (auto simp: grouped_row_of_def)
  from grouped_row_of_Some [OF ne] row
  have key: "tg_merchant_key row = tt_merchant_key (fst (hd (?G k)))"
    and occ: "tg_occurrence_count row = int (length (?G k)) + 1"
    and avg: "tg_avg_interval row = mean (map (\<lambda>x. real_of_int (snd x)) (?G k))"
    by (metis option.inject)+
  from window_key [OF refl ne] key have k: "tg_merchant_key row = k" by simp
  have len: "length (?G k) = length (filter (\<lambda>r. tt_merchant_key r = k) ?tts) - 1"
    by (rule length_interval_rows_LAG_date)
  with ne have "length (filter (\<lambda>r. tt_merchant_key r = k) ?tts) \<ge> 2"
    by (cases "?G k") auto
  with len occ avg ne show ?thesis unfolding k Let_def by simp
qed

lemma TAGGED_SQL_has_group:
  "(\<exists>row \<in> set (TAGGED_SQL tag d). tg_merchant_key row = key)
     = (length (filter (\<lambda>t. tx_amount t < 0 \<and> tag \<in> set (tags t)
                              \<and> map_option UPPER (description t) = key) (transactions d)) \<ge> 2)"
proof
  assume "\<exists>row \<in> set (TAGGED_SQL tag d). tg_merchant_key row = key"
  then obtain row where "row \<in> set (TAGGED_SQL tag d)" and "tg_merchant_key row = key" by blast
  with TAGGED_SQL_row [of row tag d]
  show "length (filter (\<lambda>t. tx_amount t < 0 \<and> tag \<in> set (tags t)
                              \<and> map_option UPPER (description t) = key) (transactions d)) \<ge> 2"
    by (simp add: Let_def length_tagged_transactions)
next
  let ?tts = "tagged_transactions tag (transactions d)"
  let ?p = "filter (\<lambda>r. tt_merchant_key r = key) ?tts"
  let ?g = "interval_rows tt_transaction_date (LAG_date tt_transaction_date ?p)"
  assume "length (filter (\<lambda>t. tx_amount t < 0 \<and> tag \<in> set (tags t)
                              \<and> map_option UPPER (description t) = key) (transactions d)) \<ge> 2"
  then have two: "length ?p \<ge> 2" by (simp add: length_tagged_transactions)
  then have "?p \<noteq> []" by auto
  then obtain r where "r \<in> set ?p" by (cases ?p) auto
  then have in_keys: "key \<in> set (map tt_merchant_key ?tts)" by auto
  from two have "length ?g \<ge> 1" by (simp add: length_interval_rows_LAG_date)
  then have ne: "?g \<noteq> []" by auto
  from grouped_row_of_Some [OF ne] obtain row
    where row: "grouped_row_of (ytd tag (year_start d) (transactions d)) (CURRENT_DATE d) ?g = Some row"
      and "tg_merchant_key row = tt_merchant_key (fst (hd ?g))" by blast
  with window_key [OF refl ne] have "tg_merchant_key row = key" by simp
  moreover from row in_keys have "row \<in> set (TAGGED_SQL tag d)"
    unfolding TAGGED_SQL_member by blast
  ultimately show "\<exists>row \<in> set (TAGGED_SQL tag d). tg_merchant_key row = key" by blast
qed


text \<open>
  C4, as stated, fails twice. The two tagged \<open>Gym\<close> charges of the sample store, 45 days
  apart, form a group with exactly one gap, and its interval is 45, not 30. And with the tag
  set to two spaces (a non-empty string) the manual path returns nothing although two
  charges carry that tag, because the tag is trimmed first.
\<close>

theorem manual_path_counterexample:
  "manualSubs sample_sdk sample_state = Inr [gym_manual, netflix_detected\<lparr>is_manual := True\<rparr>]
   \<and> occurrence_count gym_manual = 2
   \<and> interval_days gym_manual = 45
   \<and> frequency gym_manual = ''quarterly''
   \<and> subscriptionTag blank_tag_state = Some ''  ''
   \<and> map tags (transactions (store blank_tag_sdk)) = [[''  ''], [''  '']]
   \<and> map tx_amount (transactions (store blank_tag_sdk)) = [- 40, - 40]
   \<and> map description (transactions (store blank_tag_sdk)) = [Some ''Gym'', Some ''Gym'']
   \<and> manualSubs blank_tag_sdk blank_tag_state = Inr []"
  using sample_manualSubs
  by (simp add: gym_manual_def blank_tag_state_def blank_tag_sdk_def sample_state_def
      manualSubs_def tagToUse_def trim_def is_white_space_def)

text \<open>
  C4, amended. The tag used is the configured string trimmed (nothing when it is not a
  string); when it is empty the manual path returns nothing. Otherwise the path has one
  subscription for every row of the tagged query, all with \<open>is_manual = true\<close>, and the
  query has a row for a normalized description exactly when at least 2 debit transactions
  carrying the tag have it: no other gate applies. A row's average interval is the mean of
  its group's gaps (the gap itself when there is one), and only an average of 0 is
  replaced by 30.
\<close>

theorem manual_path:
  "manualSubs k st =
     (if tagToUse st = [] then Inr []
      else case tagged_query_error k of
             Some e \<Rightarrow> Inl e
           | None \<Rightarrow> Inr (map manualSub_of (TAGGED_SQL (tagToUse st) (store k))))
   \<and> tagToUse st = (case subscriptionTag st of Some s \<Rightarrow> trim s | None \<Rightarrow> [])
   \<and> (\<exists>row \<in> set (TAGGED_SQL tag d). tg_merchant_key row = key)
       = (length (filter (\<lambda>t. tx_amount t < 0 \<and> tag \<in> set (tags t)
                                \<and> map_option UPPER (description t) = key) (transactions d)) \<ge> 2)
   \<and> (\<forall>row \<in> set (TAGGED_SQL tag d).
         let p = filter (\<lambda>r. tt_merchant_key r = tg_merchant_key row)
                   (tagged_transactions tag (transactions d));
             gaps = map (\<lambda>x. real_of_int (snd x))
                      (interval_rows tt_transaction_date (LAG_date tt_transaction_date p))
         in length p \<ge> 2 \<and> tg_occurrence_count row = int (length p) \<and> gaps \<noteq> []
            \<and> tg_avg_interval row = mean gaps)
   \<and> mean [x] = x
   \<and> interval_days (manualSub_of trow)
       = Math_round (if tg_avg_interval trow = 0 then 30 else tg_avg_interval trow)
   \<and> is_manual (manualSub_of trow)"
proof -
  have 1: "manualSubs k st =
     (if tagToUse st = [] then Inr []
      else case tagged_query_error k of
             Some e \<Rightarrow> Inl e
           | None \<Rightarrow> Inr (map manualSub_of (TAGGED_SQL (tagToUse st) (store k))))"
    by (simp add: manualSubs_def)
  have 2: "tagToUse st = (case subscriptionTag st of Some s \<Rightarrow> trim s | None \<Rightarrow> [])"
    by (simp add: tagToUse_def)
  have 4: "\<forall>row \<in> set (TAGGED_SQL tag d).
         let p = filter (\<lambda>r. tt_merchant_key r = tg_merchant_key row)
                   (tagged_transactions tag (transactions d));
             gaps = map (\<lambda>x. real_of_int (snd x))
                      (interval_rows tt_transaction_date (LAG_date tt_transaction_date p))
         in length p \<ge> 2 \<and> tg_occurrence_count row = int (length p) \<and> gaps \<noteq> []
            \<and> tg_avg_interval row = mean gaps"
    using TAGGED_SQL_row by blast
  have 5: "mean [x] = x" by (simp add: mean_def)
  have 6: "interval_days (manualSub_of trow)
       = Math_round (if tg_avg_interval trow = 0 then 30 else tg_avg_interval trow)"
    by (simp add: manualSub_of_def or_30_def Let_def)
  have 7: "is_manual (manualSub_of trow)"
    by (simp add: manualSub_of_def Let_def)
  from 1 2 TAGGED_SQL_has_group [of tag d key] 4 5 6 7 show ?thesis by blast
qed

theorem manual_path_witness:
  "tagToUse sample_state = ''subscriptions''
   \<and> manualSubs sample_sdk sample_state = Inr [gym_manual, netflix_detected\<lparr>is_manual := True\<rparr>]
   \<and> map tg_merchant_key (TAGGED_SQL ''subscriptions'' sample_store) = [Some ''GYM'', Some ''NETFLIX.COM'']
   \<and> map tg_avg_interval (TAGGED_SQL ''subscriptions'' sample_store) = [45, 89 / 3]
   \<and> length (filter (\<lambda>t. tx_amount t < 0 \<and> ''subscriptions'' \<in> set (tags t)
                           \<and> map_option UPPER (description t) = Some ''GYM'')
               (transactions sample_store)) = 2
   \<and> (\<exists>row \<in> set (TAGGED_SQL ''subscriptions'' sample_store). tg_merchant_key row = Some ''GYM'')
   \<and> tagToUse (sample_state\<lparr>subscriptionTag := Some '' ''\<rparr>) = []
   \<and> manualSubs sample_sdk (sample_state\<lparr>subscriptionTag := Some '' ''\<rparr>) = Inr []"
proof -
  have t: "tagToUse (sample_state\<lparr>subscriptionTag := Some '' ''\<rparr>) = []"
    by (simp add: tagToUse_def trim_def is_white_space_def)
  have "manualSubs sample_sdk (sample_state\<lparr>subscriptionTag := Some '' ''\<rparr>) = Inr []"
    using manual_path [of sample_sdk "sample_state\<lparr>subscriptionTag := Some '' ''\<rparr>"] t by simp
  moreover have "length (filter (\<lambda>t. tx_amount t < 0 \<and> ''subscriptions'' \<in> set (tags t)
                           \<and> map_option UPPER (description t) = Some ''GYM'')
               (transactions sample_store)) = 2"
    by (simp add: sample_store_def sample_tx_def UPPER_def upper_char_def)
  moreover from this
  have "\<exists>row \<in> set (TAGGED_SQL ''subscriptions'' sample_store). tg_merchant_key row = Some ''GYM''"
    using manual_path [where tag = "''subscriptions''" and d = sample_store and key = "Some ''GYM''"]
    by simp
  ultimately show ?thesis
    using t sample_tagToUse sample_manualSubs by (simp add: sample_TAGGED_SQL)
qed

section \<open>Clustering\<close>

lemma hd_sort_key:
  assumes "sort_key f xs = c # rest"
  shows "c \<in> set xs \<and> (\<forall>r \<in> set xs. f c \<le> f r)"
proof -
  have "set (sort_key f xs) = set xs" by simp
  with assms have s: "set xs = insert c (set rest)" by simp
  have "sorted (map f (sort_key f xs))" by (rule sorted_sort_key)
  with assms have "\<forall>y \<in> set rest. f c \<le> f y" by simp
  with s show ?thesis by auto
qed

lemma sort_key_eq_Nil: "(sort_key f xs = []) = (xs = [])"
proof
  assume "sort_key f xs = []"
  then have "length (sort_key f xs) = length ([] :: 'a list)" by (rule arg_cong)
  then show "xs = []" by simp
next
  assume "xs = []"
  then show "sort_key f xs = []" by simp
qed

lemma map_of_canonical_merchants:
  "map_of (canonical_merchants base) a =
     (if a \<in> set (map b_norm_amount base)
      then (case sort_key b_transaction_date (filter (\<lambda>b. b_norm_amount b = a) base) of
              [] \<Rightarrow> None
            | c # _ \<Rightarrow> Some (b_upper_desc c))
      else None)"
proof -
  have "map_of (List.map_filter
                 (\<lambda>a. case F a of [] \<Rightarrow> None | c # _ \<Rightarrow> Some (a, b_upper_desc c)) keys) a
      = (if a \<in> set keys then (case F a of [] \<Rightarrow> None | c # _ \<Rightarrow> Some (b_upper_desc c)) else None)"
    for F :: "real \<Rightarrow> base_row list" and keys
    by (induction keys) (auto simp: List.map_filter_def split: list.splits)
  from this [of "\<lambda>a. sort_key b_transaction_date (filter (\<lambda>b. b_norm_amount b = a) base)"
                "remdups (map b_norm_amount base)"]
  show ?thesis by (simp add: canonical_merchants_def)
qed

lemma canonical_earliest:
  assumes "b \<in> set base"
  shows "\<exists>c \<in> set base. b_norm_amount c = b_norm_amount b
           \<and> (\<forall>r \<in> set base. b_norm_amount r = b_norm_amount b
                  \<longrightarrow> b_transaction_date c \<le> b_transaction_date r)
           \<and> map_of (canonical_merchants base) (b_norm_amount b) = Some (b_upper_desc c)"
proof -
  let ?same = "filter (\<lambda>r. b_norm_amount r = b_norm_amount b) base"
  from assms have "b \<in> set ?same" by simp
  then have "sort_key b_transaction_date ?same \<noteq> []"
    by (auto simp: sort_key_eq_Nil filter_empty_conv)
  then obtain c rest where s: "sort_key b_transaction_date ?same = c # rest"
    by (cases "sort_key b_transaction_date ?same") auto
  from hd_sort_key [OF s] have c: "c \<in> set ?same"
    and least: "\<forall>r \<in> set ?same. b_transaction_date c \<le> b_transaction_date r" by auto
  from assms s have canon: "map_of (canonical_merchants base) (b_norm_amount b) = Some (b_upper_desc c)"
    by (simp add: map_of_canonical_merchants)
  from c have in_base: "c \<in> set base" and same: "b_norm_amount c = b_norm_amount b" by simp_all
  from least have "\<forall>r \<in> set base. b_norm_amount r = b_norm_amount b
                  \<longrightarrow> b_transaction_date c \<le> b_transaction_date r" by simp
  with in_base same canon show ?thesis by blast
qed

lemma base_transactions_upper_desc:
  assumes "b \<in> set (base_transactions txs)"
  shows "b_upper_desc b \<noteq> []"
proof -
  from assms obtain t where t: "base_row_of t = Some b"
    unfolding base_transactions_def in_set_map_filter by blast
  show ?thesis
  proof (cases "description t")
    case None
    with t show ?thesis by (simp add: base_row_of_def)
  next
    case (Some d)
    with t have "d \<noteq> []" and "b_upper_desc b = UPPER d"
      by (auto simp: base_row_of_def split: if_splits)
    then show ?thesis by (simp add: UPPER_def)
  qed
qed

lemma merchant_group_nth:
  assumes "i < length base"
  shows "gt_merchant_group (grouped_transactions jw base ! i)
           = merchant_group_of jw (b_upper_desc (base ! i))
               (map_of (canonical_merchants base) (b_norm_amount (base ! i)))"
  using assms by (simp add: grouped_transactions_def)

text \<open>
  C3. For every amount, the canonical description is the uppercased description of a charge
  of that amount no later than any other one. A charge of that amount goes to the canonical
  group exactly when the similarity of its uppercased description to the canonical one
  exceeds 0.7 (a description scores above 0.7 against itself); otherwise its group is its
  own uppercased description. Its group depends on nothing else: no charge is compared
  with a group formed by another charge.
\<close>

theorem cluster_assignment:
  assumes "\<forall>x. x \<noteq> [] \<longrightarrow> jw x x > 7 / 10" and "b \<in> set (base_transactions txs)"
  shows "\<exists>c \<in> set (base_transactions txs).
           b_norm_amount c = b_norm_amount b
           \<and> (\<forall>r \<in> set (base_transactions txs). b_norm_amount r = b_norm_amount b
                  \<longrightarrow> b_transaction_date c \<le> b_transaction_date r)
           \<and> map_of (canonical_merchants (base_transactions txs)) (b_norm_amount b)
               = Some (b_upper_desc c)
           \<and> (\<forall>i < length (base_transactions txs).
                 b_norm_amount (base_transactions txs ! i) = b_norm_amount b \<longrightarrow>
                   gt_merchant_group (grouped_transactions jw (base_transactions txs) ! i)
                     = (if jw (b_upper_desc (base_transactions txs ! i)) (b_upper_desc c) > 7 / 10
                        then b_upper_desc c else b_upper_desc (base_transactions txs ! i))
                   \<and> (gt_merchant_group (grouped_transactions jw (base_transactions txs) ! i)
                        = b_upper_desc c)
                       = (jw (b_upper_desc (base_transactions txs ! i)) (b_upper_desc c) > 7 / 10))"
proof -
  let ?base = "base_transactions txs"
  from canonical_earliest [OF assms(2)] obtain c where c: "c \<in> set ?base"
    and amount: "b_norm_amount c = b_norm_amount b"
    and least: "\<forall>r \<in> set ?base. b_norm_amount r = b_norm_amount b
                  \<longrightarrow> b_transaction_date c \<le> b_transaction_date r"
    and canon: "map_of (canonical_merchants ?base) (b_norm_amount b) = Some (b_upper_desc c)"
    by blast
  have "gt_merchant_group (grouped_transactions jw ?base ! i)
          = (if jw (b_upper_desc (?base ! i)) (b_upper_desc c) > 7 / 10
             then b_upper_desc c else b_upper_desc (?base ! i))
        \<and> (gt_merchant_group (grouped_transactions jw ?base ! i) = b_upper_desc c)
            = (jw (b_upper_desc (?base ! i)) (b_upper_desc c) > 7 / 10)"
    if i: "i < length ?base" and same: "b_norm_amount (?base ! i) = b_norm_amount b" for i
  proof -
    have g: "gt_merchant_group (grouped_transactions jw ?base ! i)
          = (if jw (b_upper_desc (?base ! i)) (b_upper_desc c) > 7 / 10
             then b_upper_desc c else b_upper_desc (?base ! i))"
      using merchant_group_nth [OF i, of jw] canon same by (simp add: merchant_group_of_def)
    from i have "?base ! i \<in> set ?base" by simp
    then have "b_upper_desc (?base ! i) \<noteq> []" by (rule base_transactions_upper_desc)
    with assms(1) have "jw (b_upper_desc (?base ! i)) (b_upper_desc (?base ! i)) > 7 / 10" by blast
    then have "b_upper_desc (?base ! i) = b_upper_desc c
                 \<Longrightarrow> jw (b_upper_desc (?base ! i)) (b_upper_desc c) > 7 / 10" by simp
    with g show ?thesis by auto
  qed
  with c amount least canon show ?thesis by (intro bexI [of _ c]) blast+
qed


lemma cluster_base:
  "base_transactions cluster_txs =
     [\<lparr> b_norm_amount = - (1599 / 100), b_upper_desc = ''SPOTIFY USA'',
        b_description = ''Spotify USA'', b_amount = - (1599 / 100), b_transaction_date = 12 \<rparr>,
      \<lparr> b_norm_amount = - (1599 / 100), b_upper_desc = ''NETFLIX.COM LOS GATOS CA'',
        b_description = ''Netflix.com Los Gatos CA'', b_amount = - (1599 / 100),
        b_transaction_date = 3 \<rparr>,
      \<lparr> b_norm_amount = - (1599 / 100), b_upper_desc = ''NETFLIX.COM NETFLIX.COM CA'',
        b_description = ''NETFLIX.COM NETFLIX.COM CA'', b_amount = - (1599 / 100),
        b_transaction_date = 33 \<rparr>,
      \<lparr> b_norm_amount = - (1599 / 100), b_upper_desc = ''SPOTIFY US'',
        b_description = ''Spotify US'', b_amount = - (1599 / 100), b_transaction_date = 42 \<rparr>,
      \<lparr> b_norm_amount = - (1599 / 100), b_upper_desc = ''NETFLIX.COM LOS GATOS CA'',
        b_description = ''Netflix.com Los Gatos CA'', b_amount = - (1599 / 100),
        b_transaction_date = 3 \<rparr>]"
  by (simp add: cluster_txs_def untagged_tx_def base_transactions_def List.map_filter_def
      base_row_of_def ROUND2_def UPPER_def upper_char_def)

lemma cluster_canonical:
  "map_of (canonical_merchants (base_transactions cluster_txs)) (- (1599 / 100))
     = Some ''NETFLIX.COM LOS GATOS CA''"
  unfolding cluster_base by (simp add: canonical_merchants_def List.map_filter_def)

lemma cluster_groups:
  "map gt_merchant_group (grouped_transactions same_prefix (base_transactions cluster_txs))
     = [''SPOTIFY USA'', ''NETFLIX.COM LOS GATOS CA'', ''NETFLIX.COM LOS GATOS CA'',
        ''SPOTIFY US'', ''NETFLIX.COM LOS GATOS CA'']"
  unfolding grouped_transactions_def cluster_canonical [unfolded cluster_base] cluster_base
  by (simp add: cluster_canonical [unfolded cluster_base] merchant_group_of_def same_prefix_def)

theorem cluster_assignment_witness:
  "same_prefix ''SPOTIFY US'' ''SPOTIFY USA'' = 1
   \<and> map b_upper_desc (base_transactions cluster_txs)
       = [''SPOTIFY USA'', ''NETFLIX.COM LOS GATOS CA'', ''NETFLIX.COM NETFLIX.COM CA'',
          ''SPOTIFY US'', ''NETFLIX.COM LOS GATOS CA'']
   \<and> map_of (canonical_merchants (base_transactions cluster_txs)) (- (1599 / 100))
       = Some ''NETFLIX.COM LOS GATOS CA''
   \<and> map gt_merchant_group (grouped_transactions same_prefix (base_transactions cluster_txs))
       = [''SPOTIFY USA'', ''NETFLIX.COM LOS GATOS CA'', ''NETFLIX.COM LOS GATOS CA'',
          ''SPOTIFY US'', ''NETFLIX.COM LOS GATOS CA'']
   \<and> gt_merchant_group (grouped_transactions same_prefix (base_transactions cluster_txs) ! 3)
       = ''SPOTIFY US''"
proof -
  let ?base = "base_transactions cluster_txs"
  have self: "\<forall>x. x \<noteq> [] \<longrightarrow> same_prefix x x > 7 / 10"
    by (simp add: same_prefix_def)
  have b: "?base ! 3 \<in> set ?base" unfolding cluster_base by simp
  have amount: "b_norm_amount (?base ! 3) = - (1599 / 100)" unfolding cluster_base by simp
  from cluster_assignment [where jw = same_prefix and txs = cluster_txs and b = "?base ! 3", OF self b]
  obtain c where "c \<in> set ?base" and
    body: "b_norm_amount c = b_norm_amount (?base ! 3)
       \<and> (\<forall>r \<in> set ?base. b_norm_amount r = b_norm_amount (?base ! 3)
              \<longrightarrow> b_transaction_date c \<le> b_transaction_date r)
       \<and> map_of (canonical_merchants ?base) (b_norm_amount (?base ! 3)) = Some (b_upper_desc c)
       \<and> (\<forall>i < length ?base.
             b_norm_amount (?base ! i) = b_norm_amount (?base ! 3) \<longrightarrow>
               gt_merchant_group (grouped_transactions same_prefix ?base ! i)
                 = (if same_prefix (b_upper_desc (?base ! i)) (b_upper_desc c) > 7 / 10
                    then b_upper_desc c else b_upper_desc (?base ! i))
               \<and> (gt_merchant_group (grouped_transactions same_prefix ?base ! i) = b_upper_desc c)
                   = (same_prefix (b_upper_desc (?base ! i)) (b_upper_desc c) > 7 / 10))" ..
  from body have canon: "map_of (canonical_merchants ?base) (b_norm_amount (?base ! 3)) = Some (b_upper_desc c)"
    by (elim conjE)
  from body have groups: "\<forall>i < length ?base.
             b_norm_amount (?base ! i) = b_norm_amount (?base ! 3) \<longrightarrow>
               gt_merchant_group (grouped_transactions same_prefix ?base ! i)
                 = (if same_prefix (b_upper_desc (?base ! i)) (b_upper_desc c) > 7 / 10
                    then b_upper_desc c else b_upper_desc (?base ! i))
               \<and> (gt_merchant_group (grouped_transactions same_prefix ?base ! i) = b_upper_desc c)
                   = (same_prefix (b_upper_desc (?base ! i)) (b_upper_desc c) > 7 / 10)"
    by (elim conjE)
  from canon amount cluster_canonical have c: "b_upper_desc c = ''NETFLIX.COM LOS GATOS CA''"
    by simp
  have three: "3 < length ?base" unfolding cluster_base by simp
  from groups [rule_format, of 3, OF three refl]
  have "gt_merchant_group (grouped_transactions same_prefix ?base ! 3)
      = (if same_prefix (b_upper_desc (?base ! 3)) (b_upper_desc c) > 7 / 10
         then b_upper_desc c else b_upper_desc (?base ! 3))" by (rule conjunct1)
  moreover have "b_upper_desc (?base ! 3) = ''SPOTIFY US''" unfolding cluster_base by simp
  ultimately have "gt_merchant_group (grouped_transactions same_prefix ?base ! 3) = ''SPOTIFY US''"
    using c by (simp add: same_prefix_def)
  moreover have "map b_upper_desc ?base
       = [''SPOTIFY USA'', ''NETFLIX.COM LOS GATOS CA'', ''NETFLIX.COM NETFLIX.COM CA'',
          ''SPOTIFY US'', ''NETFLIX.COM LOS GATOS CA'']"
    unfolding cluster_base by simp
  moreover have "same_prefix ''SPOTIFY US'' ''SPOTIFY USA'' = 1" by (simp add: same_prefix_def)
  ultimately show ?thesis using cluster_canonical cluster_groups by simp
qed

end
